theory Spec2Isabelle
  imports Main
begin

section \<open>Values of the script\<close>

text \<open>
  Text is a HOL \<open>string\<close>; the bytes of a downloaded photo are a \<open>string\<close> too.
  A calendar date is the triple that \<open>datetime.date\<close> holds.  Python compares two dates
  as the tuples \<open>(year, month, day)\<close>, that is lexicographically.
\<close>

type_synonym bytes = string

datatype date = Date (year: nat) (month: nat) (day: nat)

fun date_le :: "date \<Rightarrow> date \<Rightarrow> bool" where
  "date_le (Date y1 m1 d1) (Date y2 m2 d2) =
     (y1 < y2 \<or> (y1 = y2 \<and> (m1 < m2 \<or> (m1 = m2 \<and> d1 \<le> d2))))"

text \<open>\<open>str(n)\<close> for a count, and \<open>str(d)\<close> for a date (ISO format, zero padded).\<close>

definition digit :: "nat \<Rightarrow> char" where
  "digit n = ''0123456789'' ! n"

fun str_nat :: "nat \<Rightarrow> string" where
  "str_nat n = (if n < 10 then [digit n] else str_nat (n div 10) @ [digit (n mod 10)])"

declare str_nat.simps [simp del]

definition zfill :: "nat \<Rightarrow> string \<Rightarrow> string" where
  "zfill w s = replicate (w - length s) (CHR ''0'') @ s"

definition str_date :: "date \<Rightarrow> string" where
  "str_date d = zfill 4 (str_nat (year d)) @ ''-'' @ zfill 2 (str_nat (month d))
                 @ ''-'' @ zfill 2 (str_nat (day d))"

text \<open>
  \<open>str.lower()\<close> on the letters A to Z.  Every other character is left as it is: no
  character outside A to Z has a lower-case form that contains y, e or s, and the script
  uses \<open>lower\<close> only to compare with the word yes.
\<close>

definition lower_char :: "char \<Rightarrow> char" where
  "lower_char c =
     (case map_of (zip ''ABCDEFGHIJKLMNOPQRSTUVWXYZ'' ''abcdefghijklmnopqrstuvwxyz'') c of
        Some l \<Rightarrow> l
      | None \<Rightarrow> c)"

definition lower :: "string \<Rightarrow> string" where
  "lower s = map lower_char s"

text \<open>
  \<open>str.strip()\<close> on the white space of ASCII (tab to carriage return, the four
  separators 28 to 31, and the blank).
\<close>

definition is_space :: "char \<Rightarrow> bool" where
  "is_space c =
     (c \<in> {CHR 0x09, CHR 0x0A, CHR 0x0B, CHR 0x0C, CHR 0x0D,
            CHR 0x1C, CHR 0x1D, CHR 0x1E, CHR 0x1F, CHR 0x20})"

definition strip :: "string \<Rightarrow> string" where
  "strip s = rev (dropWhile is_space (rev (dropWhile is_space s)))"

text \<open>\<open>os.path.join(a, b)\<close> of \<open>posixpath\<close>, for two components.\<close>

definition os_path_join :: "string \<Rightarrow> string \<Rightarrow> string" where
  "os_path_join a b =
     (if b \<noteq> [] \<and> hd b = CHR ''/'' then b
      else if a = [] \<or> last a = CHR ''/'' then a @ b
      else a @ ''/'' @ b)"

section \<open>The configuration\<close>

text \<open>
  What \<open>yaml.safe_load\<close> returns: null, a truth value, an integer, a string, a sequence
  or a mapping (floats, timestamps and binary data are left out).  A mapping is the list
  of its items, each key once.
\<close>

datatype yaml =
    YNull
  | YBool bool
  | YInt int
  | YStr string
  | YList "yaml list"
  | YMap "(yaml \<times> yaml) list"

text \<open>The truth value Python gives an object in \<open>not x\<close>.\<close>

fun truthy :: "yaml \<Rightarrow> bool" where
  "truthy YNull = False"
| "truthy (YBool b) = b"
| "truthy (YInt n) = (n \<noteq> 0)"
| "truthy (YStr s) = (s \<noteq> [])"
| "truthy (YList xs) = (xs \<noteq> [])"
| "truthy (YMap m) = (m \<noteq> [])"

text \<open>
  \<open>obj.get(key, default)\<close>: only a mapping has the method; on any other object the
  attribute lookup raises \<open>AttributeError\<close>.
\<close>

fun py_get :: "yaml \<Rightarrow> yaml \<Rightarrow> yaml \<Rightarrow> string + yaml" where
  "py_get (YMap m) key dflt = Inr (case map_of m key of None \<Rightarrow> dflt | Some v \<Rightarrow> v)"
| "py_get _ key dflt = Inl ''AttributeError''"

section \<open>The remote library\<close>

text \<open>
  A photo object of the client library, with the outcome of each of its operations in
  the run at hand.  \<open>created\<close> is \<open>Inl msg\<close> when \<open>photo.created.date()\<close> raises an
  exception whose text is \<open>msg\<close>, and \<open>Inr d\<close> when it gives the date \<open>d\<close>.
  \<open>download_result\<close> is \<open>Inl msg\<close> when \<open>photo.download()\<close> raises,
  \<open>Inr (Inl msg)\<close> when it returns but \<open>download_response.raw.read()\<close> raises (the
  local file is open by then), and \<open>Inr (Inr data)\<close> when the bytes arrive.
  \<open>delete_result\<close> is \<open>Some msg\<close> when \<open>photo.delete()\<close> raises and \<open>None\<close> when it
  succeeds.
\<close>

record photo =
  filename :: string
  created :: "string + date"
  download_result :: "string + (string + bytes)"
  delete_result :: "string option"

text \<open>
  The session handle that \<open>PyiCloudService(username, password)\<close> returns:
  \<open>photos_all\<close> is what the generator \<open>api.photos.all\<close> yields, in its order.
\<close>

record api =
  requires_2fa :: bool
  requires_2sa :: bool
  validate_2fa_code :: "string \<Rightarrow> bool"
  validate_2sa_code :: "string \<Rightarrow> bool"
  photos_all :: "photo list"

text \<open>
  The collaborators outside the script: reading and parsing the configuration file
  (\<open>Inl msg\<close> when \<open>open\<close> or \<open>yaml.safe_load\<close> raises), the constructor of the
  session (\<open>Inl msg\<close> when it raises), and
  \<open>datetime.datetime.strptime(s, "%Y-%m-%d").date()\<close> (\<open>None\<close> when it raises
  \<open>ValueError\<close>).
\<close>

record env =
  read_config :: "string \<Rightarrow> string + yaml"
  PyiCloudService :: "yaml \<Rightarrow> yaml \<Rightarrow> string + api"
  strptime :: "string \<Rightarrow> date option"

section \<open>Effects\<close>

text \<open>
  Everything the script does to the outside is an event of the trace, in the order in
  which it happens.  \<open>Input p l\<close> is one call of \<open>input(p)\<close>: \<open>l\<close> is the line read, or
  \<open>None\<close> at the end of the input.  \<open>Fetch\<close> is one photo pulled from the generator
  \<open>api.photos.all\<close>.  \<open>Authenticate u p\<close> is the call \<open>PyiCloudService(u, p)\<close>.
\<close>

datatype event =
    Print string
  | PrintHelp
  | Input string "string option"
  | ReadConfig string
  | Authenticate yaml yaml
  | Validate2fa string
  | Validate2sa string
  | Fetch photo
  | DownloadCall photo
  | DeleteCall photo
  | Makedirs string
  | OpenWb string
  | WriteFile string bytes

text \<open>
  The state the script runs in: the lines waiting on standard input, the trace so far and
  the file system.  A path string stands for the file or directory it names.  \<open>blocked\<close>
  holds the paths at which the operating system refuses to create a directory or to open
  a file for writing (permissions, a missing parent, the empty path); the script never
  changes it.
\<close>

record world =
  stdin :: "string list"
  trace :: "event list"
  dirs :: "string set"
  files :: "string \<rightharpoonup> bytes"
  blocked :: "string set"

text \<open>
  How a call ends: it returns, it leaves through \<open>sys.exit(n)\<close>, or an exception that
  nothing catches goes up (the interpreter then prints the traceback and the process ends
  with status 1).
\<close>

datatype 'a outcome = Returned 'a | Exited int | Raised string

fun exit_status :: "'a outcome \<Rightarrow> int" where
  "exit_status (Returned _) = 0"
| "exit_status (Exited n) = n"
| "exit_status (Raised _) = 1"

definition emit :: "event \<Rightarrow> world \<Rightarrow> world" where
  "emit e w = w\<lparr>trace := trace w @ [e]\<rparr>"

definition py_print :: "string \<Rightarrow> world \<Rightarrow> world" where
  "py_print s w = emit (Print s) w"

definition py_input :: "string \<Rightarrow> world \<Rightarrow> string option \<times> world" where
  "py_input p w =
     (case stdin w of
        [] \<Rightarrow> (None, emit (Input p None) w)
      | l # ls \<Rightarrow> (Some l, emit (Input p (Some l)) (w\<lparr>stdin := ls\<rparr>)))"

definition os_path_exists :: "world \<Rightarrow> string \<Rightarrow> bool" where
  "os_path_exists w p = (p \<in> dirs w \<or> files w p \<noteq> None)"

section \<open>load\_config, login, parse\_date\<close>

text \<open>
  \<open>load_config\<close> turns every exception of \<open>open\<close> and \<open>yaml.safe_load\<close> into a
  message and \<open>sys.exit(1)\<close>.
\<close>

definition load_config :: "env \<Rightarrow> string \<Rightarrow> world \<Rightarrow> yaml outcome \<times> world" where
  "load_config ev config_file w =
     (let w1 = emit (ReadConfig config_file) w in
      case read_config ev config_file of
        Inr config \<Rightarrow> (Returned config, w1)
      | Inl e \<Rightarrow> (Exited 1, py_print (''Error loading config file: '' @ e) w1))"

text \<open>
  The two challenges of \<open>login\<close>: the code typed by the operator is stripped and
  handed to the session; a code that is not accepted ends the run.
\<close>

definition login_2fa :: "api \<Rightarrow> world \<Rightarrow> api outcome \<times> world" where
  "login_2fa a w =
     (let w1 = py_print
                 ''Two-factor authentication required. A code has been sent to your devices.'' w;
          (line, w2) = py_input ''Enter the 2FA code: '' w1
      in case line of
           None \<Rightarrow> (Raised ''EOFError'', w2)
         | Some l \<Rightarrow>
             (let code = strip l; w3 = emit (Validate2fa code) w2
              in if \<not> validate_2fa_code a code
                 then (Exited 1, py_print ''Failed to verify the 2FA code.'' w3)
                 else (Returned a, w3)))"

definition login_2sa :: "api \<Rightarrow> world \<Rightarrow> api outcome \<times> world" where
  "login_2sa a w =
     (let w1 = py_print
                 ''Two-step authentication required. A code has been sent to your trusted devices.'' w;
          (line, w2) = py_input ''Enter the 2SA code: '' w1
      in case line of
           None \<Rightarrow> (Raised ''EOFError'', w2)
         | Some l \<Rightarrow>
             (let code = strip l; w3 = emit (Validate2sa code) w2
              in if \<not> validate_2sa_code a code
                 then (Exited 1, py_print ''Failed to verify the 2SA code.'' w3)
                 else (Returned a, w3)))"

definition no_credentials_line :: string where
  "no_credentials_line = ''Username and/or password not provided in the config file.''"

text \<open>
  \<open>login\<close> looks the two credentials up with \<open>.get\<close>, leaves with a message when
  one of them is false for Python, and only then calls the session constructor.
\<close>

definition login :: "env \<Rightarrow> yaml \<Rightarrow> world \<Rightarrow> api outcome \<times> world" where
  "login ev config w =
     (case py_get config (YStr ''icloud'') (YMap []) of
        Inl e \<Rightarrow> (Raised e, w)
      | Inr icloud_config \<Rightarrow>
     (case py_get icloud_config (YStr ''username'') YNull of
        Inl e \<Rightarrow> (Raised e, w)
      | Inr username \<Rightarrow>
     (case py_get icloud_config (YStr ''password'') YNull of
        Inl e \<Rightarrow> (Raised e, w)
      | Inr password \<Rightarrow>
          if \<not> truthy username \<or> \<not> truthy password
          then (Exited 1, py_print no_credentials_line w)
          else (let w1 = emit (Authenticate username password) w in
                case PyiCloudService ev username password of
                  Inl e \<Rightarrow> (Raised e, w1)
                | Inr a \<Rightarrow>
                    if requires_2fa a then login_2fa a w1
                    else if requires_2sa a then login_2sa a w1
                    else (Returned a, w1)))))"

definition invalid_date_line :: string where
  "invalid_date_line = ''Invalid date format. Please provide a date in YYYY-MM-DD format.''"

definition parse_date :: "env \<Rightarrow> string \<Rightarrow> world \<Rightarrow> date outcome \<times> world" where
  "parse_date ev date_str w =
     (case strptime ev date_str of
        Some d \<Rightarrow> (Returned d, w)
      | None \<Rightarrow> (Exited 1, py_print invalid_date_line w))"

section \<open>download\_photos\<close>

text \<open>The diagnostic of both loops for a photo whose creation date cannot be read.\<close>

definition could_not_line :: "string \<Rightarrow> string" where
  "could_not_line e = ''Could not determine creation date for a photo: '' @ e"

text \<open>
  The body of the inner \<open>try\<close> for one photo that passed the date test; the result says
  whether \<open>count\<close> was incremented.  \<open>open(file_path, "wb")\<close> raises when the path is
  a directory or is blocked, and otherwise leaves an empty file, which \<open>f.write\<close> fills
  once \<open>raw.read()\<close> has given the bytes.  The text of the exception that \<open>open\<close>
  raises is not modelled: the line printed for it carries the word OSError.
\<close>

definition failed_download_line :: "photo \<Rightarrow> string \<Rightarrow> string" where
  "failed_download_line p e = ''Failed to download '' @ filename p @ '': '' @ e"

definition download_one :: "photo \<Rightarrow> date \<Rightarrow> string \<Rightarrow> world \<Rightarrow> bool \<times> world" where
  "download_one p photo_date output_dir w =
     (let w1 = py_print (''Downloading '' @ filename p @ '' taken on '' @ str_date photo_date
                          @ '' ...'') w;
          w2 = emit (DownloadCall p) w1
      in case download_result p of
           Inl e \<Rightarrow> (False, py_print (failed_download_line p e) w2)
         | Inr raw \<Rightarrow>
             (let file_path = os_path_join output_dir (filename p) in
              if file_path \<in> dirs w2 \<or> file_path \<in> blocked w2
              then (False, py_print (failed_download_line p ''OSError'') w2)
              else (let w3 = emit (OpenWb file_path)
                               (w2\<lparr>files := (files w2)(file_path \<mapsto> [])\<rparr>)
                    in case raw of
                         Inl e \<Rightarrow> (False, py_print (failed_download_line p e) w3)
                       | Inr data \<Rightarrow>
                           (True, emit (WriteFile file_path data)
                                    (w3\<lparr>files := (files w3)(file_path \<mapsto> data)\<rparr>)))))"

fun download_loop :: "photo list \<Rightarrow> date \<Rightarrow> string \<Rightarrow> nat \<Rightarrow> world \<Rightarrow> nat \<times> world" where
  "download_loop [] target_date output_dir count w = (count, w)"
| "download_loop (p # ps) target_date output_dir count w =
     (let w1 = emit (Fetch p) w in
      case created p of
        Inl e \<Rightarrow>
          download_loop ps target_date output_dir count
            (py_print (could_not_line e) w1)
      | Inr photo_date \<Rightarrow>
          if date_le photo_date target_date
          then (let (ok, w2) = download_one p photo_date output_dir w1
                in download_loop ps target_date output_dir (if ok then count + 1 else count) w2)
          else download_loop ps target_date output_dir count w1)"

definition downloaded_line :: "nat \<Rightarrow> string \<Rightarrow> string" where
  "downloaded_line count output_dir =
     ''Downloaded '' @ str_nat count @ '' photos to '' @ [CHR 0x27] @ output_dir
       @ [CHR 0x27] @ ''.''"

text \<open>
  \<open>os.makedirs\<close> is called only when nothing exists at the path; it raises when the
  path is blocked, and the exception leaves \<open>download_photos\<close>.
\<close>

definition ensure_dir :: "string \<Rightarrow> world \<Rightarrow> unit outcome \<times> world" where
  "ensure_dir output_dir w =
     (if \<not> os_path_exists w output_dir
      then (let w1 = emit (Makedirs output_dir) w in
            if output_dir \<in> blocked w1 then (Raised ''OSError'', w1)
            else (Returned (), w1\<lparr>dirs := insert output_dir (dirs w1)\<rparr>))
      else (Returned (), w))"

definition download_photos :: "api \<Rightarrow> date \<Rightarrow> string \<Rightarrow> world \<Rightarrow> unit outcome \<times> world" where
  "download_photos a target_date output_dir w =
     (case ensure_dir output_dir w of
        (Returned u, w1) \<Rightarrow>
          (let (count, w2) = download_loop (photos_all a) target_date output_dir 0 w1
           in (Returned (), py_print (downloaded_line count output_dir) w2))
      | (Exited n, w1) \<Rightarrow> (Exited n, w1)
      | (Raised e, w1) \<Rightarrow> (Raised e, w1))"

section \<open>delete\_photos\<close>

text \<open>
  The first loop of \<open>delete_photos\<close>: every photo of the generator is looked at once; a
  photo whose date cannot be read is reported and skipped; a photo whose date is on or
  before the target date is appended to \<open>photos_to_delete\<close>.
\<close>

fun collect_photos :: "photo list \<Rightarrow> date \<Rightarrow> photo list \<Rightarrow> world \<Rightarrow> photo list \<times> world" where
  "collect_photos [] target_date photos_to_delete w = (photos_to_delete, w)"
| "collect_photos (p # ps) target_date photos_to_delete w =
     (let w1 = emit (Fetch p) w in
      case created p of
        Inl e \<Rightarrow>
          collect_photos ps target_date photos_to_delete
            (py_print (could_not_line e) w1)
      | Inr photo_date \<Rightarrow>
          if date_le photo_date target_date
          then collect_photos ps target_date (photos_to_delete @ [p]) w1
          else collect_photos ps target_date photos_to_delete w1)"

text \<open>The second loop: one \<open>delete()\<close> per collected photo, each in its own \<open>try\<close>.\<close>

fun delete_loop :: "photo list \<Rightarrow> nat \<Rightarrow> world \<Rightarrow> nat \<times> world" where
  "delete_loop [] count w = (count, w)"
| "delete_loop (p # ps) count w =
     (let w1 = emit (DeleteCall p) w in
      case delete_result p of
        None \<Rightarrow> delete_loop ps (count + 1) (py_print (''Deleted '' @ filename p) w1)
      | Some e \<Rightarrow>
          delete_loop ps count
            (py_print (''Failed to delete '' @ filename p @ '': '' @ e) w1))"

definition confirm_prompt :: string where
  "confirm_prompt =
     ''Are you sure you want to delete these photos? This action cannot be undone. (yes/[no]): ''"

definition found_line :: "nat \<Rightarrow> string" where
  "found_line total' = ''Found '' @ str_nat total' @ '' photos to delete.''"

definition deleted_line :: "nat \<Rightarrow> nat \<Rightarrow> string" where
  "deleted_line count total' =
     ''Deleted '' @ str_nat count @ '' out of '' @ str_nat total' @ '' photos.''"

definition delete_photos :: "api \<Rightarrow> date \<Rightarrow> world \<Rightarrow> unit outcome \<times> world" where
  "delete_photos a target_date w =
     (let (photos_to_delete, w1) = collect_photos (photos_all a) target_date [] w;
          total' = length photos_to_delete;
          w2 = py_print (found_line total') w1;
          (confirm, w3) = py_input confirm_prompt w2
      in case confirm of
           None \<Rightarrow> (Raised ''EOFError'', w3)
         | Some answer \<Rightarrow>
             if lower answer \<noteq> ''yes''
             then (Returned (), py_print ''Deletion canceled.'' w3)
             else (let (count, w4) = delete_loop photos_to_delete 0 w3
                   in (Returned (), py_print (deleted_line count total') w4)))"

section \<open>main\<close>

text \<open>
  The namespace that \<open>argparse\<close> hands to \<open>main\<close>: the sub-command (\<open>None\<close> when none
  was given), \<open>--config\<close>, \<open>--date\<close> and \<open>--output-dir\<close>.
\<close>

datatype command = Download | Delete

record args =
  args_command :: "command option"
  args_config :: string
  args_date :: string
  args_output_dir :: string

definition main :: "env \<Rightarrow> args \<Rightarrow> world \<Rightarrow> unit outcome \<times> world" where
  "main ev ar w =
     (case args_command ar of
        None \<Rightarrow> (Exited 1, emit PrintHelp w)
      | Some cmd \<Rightarrow>
     (case load_config ev (args_config ar) w of
        (Exited n, w1) \<Rightarrow> (Exited n, w1)
      | (Raised e, w1) \<Rightarrow> (Raised e, w1)
      | (Returned config, w1) \<Rightarrow>
     (case login ev config w1 of
        (Exited n, w2) \<Rightarrow> (Exited n, w2)
      | (Raised e, w2) \<Rightarrow> (Raised e, w2)
      | (Returned a, w2) \<Rightarrow>
     (case parse_date ev (args_date ar) w2 of
        (Exited n, w3) \<Rightarrow> (Exited n, w3)
      | (Raised e, w3) \<Rightarrow> (Raised e, w3)
      | (Returned target_date, w3) \<Rightarrow>
          (case cmd of
             Download \<Rightarrow> download_photos a target_date (args_output_dir ar) w3
           | Delete \<Rightarrow> delete_photos a target_date w3)))))"

section \<open>Notions used in the statements\<close>

text \<open>
  A photo matches a cutoff when its creation date can be read and is on or before the
  cutoff; the selection of a run is the list of matching photos in the order of the
  generator.
\<close>

definition matches :: "date \<Rightarrow> photo \<Rightarrow> bool" where
  "matches target_date p = (case created p of Inl e \<Rightarrow> False | Inr d \<Rightarrow> date_le d target_date)"

definition selection :: "api \<Rightarrow> date \<Rightarrow> photo list" where
  "selection a d = filter (matches d) (photos_all a)"

text \<open>
  What a trace holds of each kind of event, in order: the photos fetched from the
  generator, the photos on which \<open>delete()\<close> and \<open>download()\<close> were called, the calls
  of \<open>input\<close>, the directories \<open>os.makedirs\<close> was asked to create, and the lines
  that report a failed deletion or download.
\<close>

definition fetches :: "event list \<Rightarrow> photo list" where
  "fetches tr = [p. Fetch p \<leftarrow> tr]"

definition deletes :: "event list \<Rightarrow> photo list" where
  "deletes tr = [p. DeleteCall p \<leftarrow> tr]"

definition downloads :: "event list \<Rightarrow> photo list" where
  "downloads tr = [p. DownloadCall p \<leftarrow> tr]"

definition inputs :: "event list \<Rightarrow> (string \<times> string option) list" where
  "inputs tr = [(p, l). Input p l \<leftarrow> tr]"

definition makedirs_calls :: "event list \<Rightarrow> string list" where
  "makedirs_calls tr = [p. Makedirs p \<leftarrow> tr]"

definition failure_lines :: "event list \<Rightarrow> string list" where
  "failure_lines tr = [s. Print s \<leftarrow> tr, take 7 s = ''Failed '']"

text \<open>
  The events of one round of the first loop of \<open>delete_photos\<close>, and of one round of
  its second loop.
\<close>

definition fetch_events :: "photo \<Rightarrow> event list" where
  "fetch_events p =
     Fetch p # (case created p of
                  Inl e \<Rightarrow> [Print (could_not_line e)]
                | Inr d \<Rightarrow> [])"

definition delete_events :: "photo \<Rightarrow> event list" where
  "delete_events p =
     [DeleteCall p,
      Print (case delete_result p of
               None \<Rightarrow> ''Deleted '' @ filename p
             | Some e \<Rightarrow> ''Failed to delete '' @ filename p @ '': '' @ e)]"

text \<open>The eight spellings of the word yes.\<close>

definition yes_token :: "string \<Rightarrow> bool" where
  "yes_token s = (s \<in> {''yes'', ''yeS'', ''yEs'', ''yES'', ''Yes'', ''YeS'', ''YEs'', ''YES''})"

text \<open>
  The two events around the confirmation of \<open>delete_photos\<close> (the line with the count
  and the prompt), and the events that follow an answer.
\<close>

definition prompt_events :: "api \<Rightarrow> date \<Rightarrow> string option \<Rightarrow> event list" where
  "prompt_events a d line =
     [Print (found_line (length (selection a d))), Input confirm_prompt line]"

definition after_prompt :: "api \<Rightarrow> date \<Rightarrow> string \<Rightarrow> event list" where
  "after_prompt a d answer =
     (if yes_token answer
      then concat (map delete_events (selection a d))
           @ [Print (deleted_line (length (filter (\<lambda>p. delete_result p = None) (selection a d)))
                       (length (selection a d)))]
      else [Print ''Deletion canceled.''])"

text \<open>
  A download succeeds, in a given world, when \<open>download()\<close> returns, the file can be
  opened for writing and the bytes arrive.
\<close>

definition download_ok :: "world \<Rightarrow> string \<Rightarrow> photo \<Rightarrow> bool" where
  "download_ok w output_dir p =
     (case download_result p of
        Inl e \<Rightarrow> False
      | Inr raw \<Rightarrow>
          os_path_join output_dir (filename p) \<notin> dirs w
          \<and> os_path_join output_dir (filename p) \<notin> blocked w
          \<and> (case raw of Inl e \<Rightarrow> False | Inr data \<Rightarrow> True))"

text \<open>
  The events that \<open>load_config\<close> and \<open>login\<close> can add to the trace: no photo is
  touched, no file is written, and the line about an invalid date is not printed.
\<close>

definition safe_event :: "event \<Rightarrow> bool" where
  "safe_event e =
     (case e of
        Fetch p \<Rightarrow> False
      | DownloadCall p \<Rightarrow> False
      | DeleteCall p \<Rightarrow> False
      | Makedirs p \<Rightarrow> False
      | OpenWb p \<Rightarrow> False
      | WriteFile p b \<Rightarrow> False
      | Print s \<Rightarrow> s \<noteq> invalid_date_line
      | _ \<Rightarrow> True)"

text \<open>
  The value a configuration holds for the key \<open>username\<close> or \<open>password\<close> of its
  \<open>icloud\<close> section, when there is one; a credential is missing when there is none or
  when Python takes the value for false.
\<close>

definition credential :: "yaml \<Rightarrow> string \<Rightarrow> yaml option" where
  "credential config key =
     (case config of
        YMap m \<Rightarrow>
          (case map_of m (YStr ''icloud'') of
             Some (YMap i) \<Rightarrow> map_of i (YStr key)
           | _ \<Rightarrow> None)
      | _ \<Rightarrow> None)"

definition credential_missing :: "yaml \<Rightarrow> string \<Rightarrow> bool" where
  "credential_missing config key =
     (case credential config key of None \<Rightarrow> True | Some v \<Rightarrow> \<not> truthy v)"

text \<open>
  The shape \<open>login\<close> is written for: a mapping whose \<open>icloud\<close> entry, if there is
  one, is a mapping.
\<close>

definition well_shaped :: "yaml \<Rightarrow> bool" where
  "well_shaped config =
     (case config of
        YMap m \<Rightarrow>
          (case map_of m (YStr ''icloud'') of
             None \<Rightarrow> True
           | Some (YMap i) \<Rightarrow> True
           | Some _ \<Rightarrow> False)
      | _ \<Rightarrow> False)"

section \<open>Sample data\<close>

text \<open>
  Three photos created on 2021-12-31, 2022-01-01 and 2022-01-02, of which the second can
  be neither downloaded nor deleted, and one photo whose creation date cannot be read.
\<close>

definition photo_a :: photo where
  "photo_a = \<lparr>filename = ''a.jpg'', created = Inr (Date 2021 12 31),
              download_result = Inr (Inr ''AAA''), delete_result = None\<rparr>"

definition photo_b :: photo where
  "photo_b = \<lparr>filename = ''b.jpg'', created = Inr (Date 2022 1 1),
              download_result = Inl ''timed out'', delete_result = Some ''refused''\<rparr>"

definition photo_c :: photo where
  "photo_c = \<lparr>filename = ''c.jpg'', created = Inr (Date 2022 1 2),
              download_result = Inr (Inr ''CCC''), delete_result = None\<rparr>"

definition photo_x :: photo where
  "photo_x = \<lparr>filename = ''x.jpg'', created = Inl ''no timestamp'',
              download_result = Inr (Inr ''XXX''), delete_result = None\<rparr>"

definition sample_cutoff :: date where
  "sample_cutoff = Date 2022 1 1"

definition sample_api :: "photo list \<Rightarrow> api" where
  "sample_api ps = \<lparr>requires_2fa = False, requires_2sa = False,
                    validate_2fa_code = (\<lambda>code. False), validate_2sa_code = (\<lambda>code. False),
                    photos_all = ps\<rparr>"

text \<open>A world with the given lines on standard input and an empty file system.\<close>

definition sample_world :: "string list \<Rightarrow> world" where
  "sample_world lines = \<lparr>stdin = lines, trace = [], dirs = {}, files = Map.empty,
                         blocked = {}\<rparr>"

definition sample_config :: yaml where
  "sample_config =
     YMap [(YStr ''icloud'',
            YMap [(YStr ''username'', YStr ''user@example.com''),
                  (YStr ''password'', YStr ''secret'')])]"

text \<open>
  A stand-in for \<open>strptime\<close> in the examples: it knows the one well-formed date string
  that they use and rejects every other string.  The theorems hold for every parser.
\<close>

definition sample_strptime :: "string \<Rightarrow> date option" where
  "sample_strptime s = (if s = ''2022-01-01'' then Some (Date 2022 1 1) else None)"

definition sample_env :: env where
  "sample_env =
     \<lparr>read_config = (\<lambda>path. if path = ''config.yaml'' then Inr sample_config
                             else Inl ''No such file or directory''),
      PyiCloudService = (\<lambda>username password. Inr (sample_api [photo_a, photo_b, photo_c])),
      strptime = sample_strptime\<rparr>"

definition sample_args :: "command \<Rightarrow> string \<Rightarrow> args" where
  "sample_args cmd date_str =
     \<lparr>args_command = Some cmd, args_config = ''config.yaml'', args_date = date_str,
      args_output_dir = ''downloads''\<rparr>"

section \<open>Dates, numbers and words\<close>

lemma date_le_refl: "date_le d d"
  by (cases d) simp

lemma date_le_trans: "date_le a b \<Longrightarrow> date_le b c \<Longrightarrow> date_le a c"
  by (cases a; cases b; cases c) auto

lemma date_le_antisym: "date_le a b \<Longrightarrow> date_le b a \<Longrightarrow> a = b"
  by (cases a; cases b) auto

lemma date_le_total: "date_le a b \<or> date_le b a"
  by (cases a; cases b) auto

lemma date_le_iso:
  assumes "month a \<le> 12" "day a \<le> 31" "month b \<le> 12" "day b \<le> 31"
  shows "date_le a b \<longleftrightarrow>
           year a * 10000 + month a * 100 + day a \<le> year b * 10000 + month b * 100 + day b"
  using assms by (cases a; cases b) auto

lemma str_nat_0: "str_nat 0 = ''0''"
  by (simp add: str_nat.simps digit_def)

lemma str_date_sample: "str_date (Date 2022 (Suc 0) (Suc 0)) = ''2022-01-01''"
  by (simp add: str_date_def zfill_def str_nat.simps digit_def)

lemma downloaded_line_0:
  "downloaded_line 0 dir = ''Downloaded 0 photos to '' @ [CHR 0x27] @ dir @ [CHR 0x27] @ ''.''"
  by (simp add: downloaded_line_def str_nat.simps digit_def)

lemma found_line_0: "found_line 0 = ''Found 0 photos to delete.''"
  by (simp add: found_line_def str_nat.simps digit_def)

lemma could_not_line_no_failure [simp]: "take 7 (could_not_line e) \<noteq> ''Failed ''"
  by (simp add: could_not_line_def)

lemma lower_char_y: "lower_char c = CHR ''y'' \<longleftrightarrow> c = CHR ''y'' \<or> c = CHR ''Y''"
  by (simp add: lower_char_def)

lemma lower_char_e: "lower_char c = CHR ''e'' \<longleftrightarrow> c = CHR ''e'' \<or> c = CHR ''E''"
  by (simp add: lower_char_def)

lemma lower_char_s: "lower_char c = CHR ''s'' \<longleftrightarrow> c = CHR ''s'' \<or> c = CHR ''S''"
  by (simp add: lower_char_def)

lemma lower_yes_shape:
  "lower s = ''yes'' \<longleftrightarrow>
        (\<exists>a b c. s = [a, b, c] \<and> lower_char a = CHR ''y'' \<and> lower_char b = CHR ''e''
                   \<and> lower_char c = CHR ''s'')"
  unfolding lower_def by (simp add: map_eq_Cons_conv) blast

lemma yes_token_shape:
  "yes_token s \<longleftrightarrow>
     (\<exists>a b c. s = [a, b, c] \<and> (a = CHR ''y'' \<or> a = CHR ''Y'') \<and> (b = CHR ''e'' \<or> b = CHR ''E'')
                \<and> (c = CHR ''s'' \<or> c = CHR ''S''))"
  (is "?L \<longleftrightarrow> ?R")
proof
  assume ?L then show ?R unfolding yes_token_def by (elim insertE emptyE) simp_all
next
  assume ?R
  then obtain a b c where "s = [a, b, c]" "a = CHR ''y'' \<or> a = CHR ''Y''"
     "b = CHR ''e'' \<or> b = CHR ''E''" "c = CHR ''s'' \<or> c = CHR ''S''" by blast
  then show ?L unfolding yes_token_def by (elim disjE) simp_all
qed

lemma lower_yes: "lower s = ''yes'' \<longleftrightarrow> yes_token s"
  unfolding lower_yes_shape yes_token_shape lower_char_y lower_char_e lower_char_s ..

lemma yes_token_yes: "yes_token ''yes''"
  by (simp add: yes_token_def)

lemma filter_count_minus:
  "length (filter P xs) = length xs - length (filter (\<lambda>x. \<not> P x) xs)"
  using sum_length_filter_compl [of P xs] by simp

lemma map_add_twice: "(m ++ g) ++ g = m ++ g"
  by (rule ext) (simp add: map_add_def split: option.splits)

section \<open>What a trace holds\<close>

lemma fetches_simps [simp]:
  "fetches [] = []" "fetches (xs @ ys) = fetches xs @ fetches ys"
  "fetches (e # tr) = (case e of Fetch p \<Rightarrow> [p] | _ \<Rightarrow> []) @ fetches tr"
  by (simp_all add: fetches_def split: event.splits)

lemma deletes_simps [simp]:
  "deletes [] = []" "deletes (xs @ ys) = deletes xs @ deletes ys"
  "deletes (e # tr) = (case e of DeleteCall p \<Rightarrow> [p] | _ \<Rightarrow> []) @ deletes tr"
  by (simp_all add: deletes_def split: event.splits)

lemma downloads_simps [simp]:
  "downloads [] = []" "downloads (xs @ ys) = downloads xs @ downloads ys"
  "downloads (e # tr) = (case e of DownloadCall p \<Rightarrow> [p] | _ \<Rightarrow> []) @ downloads tr"
  by (simp_all add: downloads_def split: event.splits)

lemma inputs_simps [simp]:
  "inputs [] = []" "inputs (xs @ ys) = inputs xs @ inputs ys"
  "inputs (e # tr) = (case e of Input p l \<Rightarrow> [(p, l)] | _ \<Rightarrow> []) @ inputs tr"
  by (simp_all add: inputs_def split: event.splits)

lemma makedirs_calls_simps [simp]:
  "makedirs_calls [] = []" "makedirs_calls (xs @ ys) = makedirs_calls xs @ makedirs_calls ys"
  "makedirs_calls (e # tr) = (case e of Makedirs p \<Rightarrow> [p] | _ \<Rightarrow> []) @ makedirs_calls tr"
  by (simp_all add: makedirs_calls_def split: event.splits)

lemma failure_lines_simps [simp]:
  "failure_lines [] = []" "failure_lines (xs @ ys) = failure_lines xs @ failure_lines ys"
  "failure_lines (e # tr) =
     (case e of Print s \<Rightarrow> (if take 7 s = ''Failed '' then [s] else []) | _ \<Rightarrow> []) @ failure_lines tr"
  by (simp_all add: failure_lines_def split: event.splits)

lemma fetch_events_proj [simp]:
  "fetches (concat (map fetch_events ps)) = ps"
  "deletes (concat (map fetch_events ps)) = []"
  "downloads (concat (map fetch_events ps)) = []"
  "inputs (concat (map fetch_events ps)) = []"
  "failure_lines (concat (map fetch_events ps)) = []"
  by (induction ps) (simp_all add: fetch_events_def split: sum.splits)

lemma delete_events_proj [simp]:
  "fetches (concat (map delete_events ps)) = []"
  "deletes (concat (map delete_events ps)) = ps"
  "downloads (concat (map delete_events ps)) = []"
  "inputs (concat (map delete_events ps)) = []"
  "length (failure_lines (concat (map delete_events ps))) =
     length (filter (\<lambda>p. delete_result p \<noteq> None) ps)"
  by (induction ps) (auto simp add: delete_events_def split: option.splits)

lemma could_not_in_fetch_events:
  "p \<in> set ps \<Longrightarrow> created p = Inl e \<Longrightarrow> Print (could_not_line e) \<in> set (concat (map fetch_events ps))"
  by (auto simp add: fetch_events_def intro!: bexI [of _ p])

lemma safe_events:
  "list_all safe_event evs \<Longrightarrow>
     fetches evs = [] \<and> downloads evs = [] \<and> deletes evs = []
     \<and> Print invalid_date_line \<notin> set evs"
  by (induction evs) (auto simp add: safe_event_def split: event.splits)

section \<open>The two loops of delete\_photos\<close>

lemma collect_photos_eq:
  "collect_photos ps d acc w =
     (acc @ filter (matches d) ps, w\<lparr>trace := trace w @ concat (map fetch_events ps)\<rparr>)"
  by (induction ps arbitrary: acc w)
     (auto simp: matches_def fetch_events_def emit_def py_print_def split: sum.splits)

lemma delete_loop_eq:
  "delete_loop ps c w =
     (c + length (filter (\<lambda>p. delete_result p = None) ps),
      w\<lparr>trace := trace w @ concat (map delete_events ps)\<rparr>)"
  by (induction ps arbitrary: c w)
     (auto simp: delete_events_def emit_def py_print_def split: option.splits)

lemma delete_photos_eof:
  "stdin w = [] \<Longrightarrow>
   delete_photos a d w =
     (Raised ''EOFError'',
      w\<lparr>trace := trace w @ concat (map fetch_events (photos_all a)) @ prompt_events a d None\<rparr>)"
  by (simp add: delete_photos_def collect_photos_eq py_print_def emit_def py_input_def
        prompt_events_def selection_def Let_def)

lemma delete_photos_answer:
  "stdin w = answer # rest \<Longrightarrow>
   delete_photos a d w =
     (Returned (),
      w\<lparr>stdin := rest,
        trace := trace w @ concat (map fetch_events (photos_all a))
                   @ prompt_events a d (Some answer) @ after_prompt a d answer\<rparr>)"
  by (simp add: delete_photos_def collect_photos_eq delete_loop_eq py_print_def emit_def
        py_input_def prompt_events_def after_prompt_def selection_def lower_yes Let_def)

lemma after_prompt_proj [simp]:
  "fetches (after_prompt a d answer) = []"
  "inputs (after_prompt a d answer) = []"
  "deletes (after_prompt a d answer) = (if yes_token answer then selection a d else [])"
  by (simp_all add: after_prompt_def)

lemma delete_photos_events:
  "\<exists>evs. trace (snd (delete_photos a d w)) = trace w @ concat (map fetch_events (photos_all a)) @ evs
         \<and> fetches evs = [] \<and> set (deletes evs) \<subseteq> set (selection a d)"
proof (cases "stdin w")
  case Nil
  show ?thesis
    by (rule exI [of _ "prompt_events a d None"])
       (simp add: delete_photos_eof [OF Nil] prompt_events_def)
next
  case (Cons answer rest)
  show ?thesis
    by (rule exI [of _ "prompt_events a d (Some answer) @ after_prompt a d answer"])
       (auto simp add: delete_photos_answer [OF Cons] prompt_events_def)
qed

section \<open>One download\<close>

lemma download_one_fst: "fst (download_one p pd dir w) = download_ok w dir p"
  by (simp add: download_one_def download_ok_def Let_def emit_def py_print_def
       split: sum.splits)

lemma download_one_frame:
  "dirs (snd (download_one p pd dir w)) = dirs w"
  "blocked (snd (download_one p pd dir w)) = blocked w"
  "stdin (snd (download_one p pd dir w)) = stdin w"
  by (simp_all add: download_one_def Let_def emit_def py_print_def split: sum.splits)

lemma download_one_proj:
  "fetches (trace (snd (download_one p pd dir w))) = fetches (trace w)"
  "deletes (trace (snd (download_one p pd dir w))) = deletes (trace w)"
  "inputs (trace (snd (download_one p pd dir w))) = inputs (trace w)"
  "downloads (trace (snd (download_one p pd dir w))) = downloads (trace w) @ [p]"
  by (simp_all add: download_one_def Let_def emit_def py_print_def split: sum.splits)

lemma download_one_makedirs:
  "makedirs_calls (trace (snd (download_one p pd dir w))) = makedirs_calls (trace w)"
  by (simp add: download_one_def Let_def emit_def py_print_def split: sum.splits)

lemma download_one_failures:
  "length (failure_lines (trace (snd (download_one p pd dir w))))
     = length (failure_lines (trace w)) + (if download_ok w dir p then 0 else 1)"
  by (simp add: download_one_def download_ok_def Let_def emit_def py_print_def
        failed_download_line_def split: sum.splits)

lemma download_one_grows:
  "\<exists>evs. trace (snd (download_one p pd dir w)) = trace w @ evs"
  by (simp add: download_one_def Let_def emit_def py_print_def split: sum.splits)

lemma download_one_files:
  "\<exists>g. \<forall>pd w. dirs w = D \<and> blocked w = B \<longrightarrow>
         files (snd (download_one p pd dir w)) = files w ++ g"
proof (cases "download_result p")
  case (Inl e)
  then show ?thesis
    by (intro exI [of _ Map.empty]) (simp add: download_one_def Let_def emit_def py_print_def)
next
  case (Inr raw)
  let ?fp = "os_path_join dir (filename p)"
  show ?thesis
  proof (cases "?fp \<in> D \<or> ?fp \<in> B")
    case True
    with Inr show ?thesis
      by (intro exI [of _ Map.empty])
         (auto simp add: download_one_def Let_def emit_def py_print_def)
  next
    case False
    with Inr show ?thesis
      by (intro exI [of _ "[?fp \<mapsto> (case raw of Inl e \<Rightarrow> [] | Inr data \<Rightarrow> data)]"])
         (auto simp add: download_one_def Let_def emit_def py_print_def split: sum.splits)
  qed
qed

lemma download_ok_cong:
  "dirs w' = dirs w \<Longrightarrow> blocked w' = blocked w \<Longrightarrow> download_ok w' dir p = download_ok w dir p"
  by (simp add: download_ok_def split: sum.splits)

section \<open>The loop of download\_photos\<close>

lemma download_loop_frame:
  "dirs (snd (download_loop ps d dir c w)) = dirs w \<and>
   blocked (snd (download_loop ps d dir c w)) = blocked w \<and>
   stdin (snd (download_loop ps d dir c w)) = stdin w"
proof (induction ps arbitrary: c w)
  case Nil
  show ?case by simp
next
  case (Cons p ps)
  show ?case
    by (simp add: Cons.IH Let_def split_beta download_one_frame emit_def py_print_def
          split: sum.splits)
qed

lemma download_loop_count:
  "fst (download_loop ps d dir c w)
     = c + length (filter (download_ok w dir) (filter (matches d) ps))"
proof (induction ps arbitrary: c w)
  case Nil
  show ?case by simp
next
  case (Cons p ps)
  have ok: "download_ok (snd (download_one p pd dir (emit (Fetch p) w))) dir = download_ok w dir"
       "download_ok (py_print s (emit (Fetch p) w)) dir = download_ok w dir"
       "download_ok (emit (Fetch p) w) dir = download_ok w dir" for pd s
    by (rule ext, rule download_ok_cong; simp add: download_one_frame emit_def py_print_def)+
  show ?case
    by (simp add: Cons.IH Let_def split_beta download_one_fst ok matches_def
          split: sum.splits)
qed

lemma download_loop_proj:
  "fetches (trace (snd (download_loop ps d dir c w))) = fetches (trace w) @ ps \<and>
   deletes (trace (snd (download_loop ps d dir c w))) = deletes (trace w) \<and>
   inputs (trace (snd (download_loop ps d dir c w))) = inputs (trace w) \<and>
   downloads (trace (snd (download_loop ps d dir c w)))
     = downloads (trace w) @ filter (matches d) ps"
proof (induction ps arbitrary: c w)
  case Nil
  show ?case by simp
next
  case (Cons p ps)
  show ?case
    by (simp add: Cons.IH Let_def split_beta download_one_proj emit_def py_print_def
          matches_def split: sum.splits)
qed

lemma download_loop_makedirs:
  "makedirs_calls (trace (snd (download_loop ps d dir c w))) = makedirs_calls (trace w)"
proof (induction ps arbitrary: c w)
  case Nil
  show ?case by simp
next
  case (Cons p ps)
  show ?case
    by (simp add: Cons.IH Let_def split_beta download_one_makedirs emit_def py_print_def
          split: sum.splits)
qed

lemma download_loop_failures:
  "length (failure_lines (trace (snd (download_loop ps d dir c w))))
     = length (failure_lines (trace w))
       + length (filter (\<lambda>p. \<not> download_ok w dir p) (filter (matches d) ps))"
proof (induction ps arbitrary: c w)
  case Nil
  show ?case by simp
next
  case (Cons p ps)
  have ok: "download_ok (snd (download_one p pd dir (emit (Fetch p) w))) dir = download_ok w dir"
       "download_ok (py_print s (emit (Fetch p) w)) dir = download_ok w dir"
       "download_ok (emit (Fetch p) w) dir = download_ok w dir" for pd s
    by (rule ext, rule download_ok_cong; simp add: download_one_frame emit_def py_print_def)+
  have okf: "download_ok (emit (Fetch p) w) dir p = download_ok w dir p"
    by (simp add: ok)
  show ?case
    by (simp add: Cons.IH Let_def split_beta download_one_failures ok okf matches_def
          split: sum.splits) (simp add: emit_def py_print_def)
qed

lemma download_loop_grows:
  "\<exists>evs. trace (snd (download_loop ps d dir c w)) = trace w @ evs
         \<and> (\<forall>p\<in>set ps. \<forall>e. created p = Inl e \<longrightarrow> Print (could_not_line e) \<in> set evs)"
proof (induction ps arbitrary: c w)
  case Nil
  show ?case by simp
next
  case (Cons p ps)
  show ?case
  proof (cases "created p")
    case (Inl e)
    let ?w = "py_print (could_not_line e) (emit (Fetch p) w)"
    obtain evs where evs: "trace (snd (download_loop ps d dir c ?w)) = trace ?w @ evs"
        "\<forall>p\<in>set ps. \<forall>e. created p = Inl e \<longrightarrow> Print (could_not_line e) \<in> set evs"
      using Cons.IH [of c ?w] by blast
    show ?thesis
      apply (rule exI [of _ "[Fetch p, Print (could_not_line e)] @ evs"])
      using evs Inl
      apply (auto simp add: could_not_line_def emit_def py_print_def)
      done
  next
    case (Inr pd)
    show ?thesis
    proof (cases "date_le pd d")
      case True
      let ?w1 = "emit (Fetch p) w"
      let ?w2 = "snd (download_one p pd dir ?w1)"
      let ?c = "if fst (download_one p pd dir ?w1) then c + 1 else c"
      obtain e1 where e1: "trace ?w2 = trace ?w1 @ e1"
        using download_one_grows by blast
      obtain evs where evs: "trace (snd (download_loop ps d dir ?c ?w2)) = trace ?w2 @ evs"
        "\<forall>p\<in>set ps. \<forall>e. created p = Inl e \<longrightarrow> Print (could_not_line e) \<in> set evs"
        using Cons.IH [of ?c ?w2] by blast
      show ?thesis
        apply (rule exI [of _ "[Fetch p] @ e1 @ evs"])
        using evs e1 Inr True
        apply (auto simp add: emit_def split_beta Let_def)
        done
    next
      case False
      let ?w1 = "emit (Fetch p) w"
      obtain evs where evs: "trace (snd (download_loop ps d dir c ?w1)) = trace ?w1 @ evs"
        "\<forall>p\<in>set ps. \<forall>e. created p = Inl e \<longrightarrow> Print (could_not_line e) \<in> set evs"
        using Cons.IH [of c ?w1] by blast
      show ?thesis
        apply (rule exI [of _ "[Fetch p] @ evs"])
        using evs Inr False
        apply (auto simp add: emit_def)
        done
    qed
  qed
qed

lemma download_loop_events:
  "\<exists>evs. trace (snd (download_loop ps d dir c w)) = trace w @ evs
         \<and> fetches evs = ps \<and> deletes evs = [] \<and> inputs evs = []
         \<and> downloads evs = filter (matches d) ps
         \<and> length (failure_lines evs)
             = length (filter (\<lambda>p. \<not> download_ok w dir p) (filter (matches d) ps))
         \<and> (\<forall>p\<in>set ps. \<forall>e. created p = Inl e \<longrightarrow> Print (could_not_line e) \<in> set evs)"
proof -
  obtain evs where evs: "trace (snd (download_loop ps d dir c w)) = trace w @ evs"
        "\<forall>p\<in>set ps. \<forall>e. created p = Inl e \<longrightarrow> Print (could_not_line e) \<in> set evs"
    using download_loop_grows by blast
  have "fetches (trace w @ evs) = fetches (trace w) @ ps"
       "deletes (trace w @ evs) = deletes (trace w)"
       "inputs (trace w @ evs) = inputs (trace w)"
       "downloads (trace w @ evs) = downloads (trace w) @ filter (matches d) ps"
    using download_loop_proj [of ps d dir c w] by (simp_all add: evs(1))
  moreover have "length (failure_lines (trace w @ evs)) = length (failure_lines (trace w))
       + length (filter (\<lambda>p. \<not> download_ok w dir p) (filter (matches d) ps))"
    using download_loop_failures [of ps d dir c w] by (simp add: evs(1))
  ultimately show ?thesis using evs by (intro exI [of _ evs]) simp
qed

lemma download_loop_files:
  "\<exists>g. \<forall>c w. dirs w = D \<and> blocked w = B \<longrightarrow>
         files (snd (download_loop ps d dir c w)) = files w ++ g"
proof (induction ps)
  case Nil
  show ?case by (intro exI [of _ Map.empty]) simp
next
  case (Cons p ps)
  then obtain g where g: "\<And>c w. dirs w = D \<Longrightarrow> blocked w = B \<Longrightarrow>
         files (snd (download_loop ps d dir c w)) = files w ++ g"
    by blast
  obtain g1 where g1: "\<And>pd w. dirs w = D \<Longrightarrow> blocked w = B \<Longrightarrow>
         files (snd (download_one p pd dir w)) = files w ++ g1"
    using download_one_files [of D B p dir] by blast
  show ?case
  proof (cases "matches d p")
    case True
    then obtain pd where pd: "created p = Inr pd" "date_le pd d"
      by (auto simp: matches_def split: sum.splits)
    show ?thesis
      by (intro exI [of _ "g1 ++ g"])
         (simp add: pd Let_def split_beta g g1 download_one_frame emit_def)
  next
    case False
    then show ?thesis
      by (intro exI [of _ g])
         (auto simp add: matches_def Let_def g emit_def py_print_def split: sum.splits)
  qed
qed

lemma download_loop_again:
  assumes "w1 = snd (download_loop ps d dir c w)" and "dirs w' = dirs w1" "blocked w' = blocked w1"
    "files w' = files w1"
  shows "files (snd (download_loop ps d dir c' w')) = files w1"
proof -
  obtain g where g: "\<And>c w. dirs w = dirs w1 \<Longrightarrow> blocked w = blocked w1 \<Longrightarrow>
         files (snd (download_loop ps d dir c w)) = files w ++ g"
    using download_loop_files [of "dirs w1" "blocked w1" ps d dir] by blast
  have fr: "dirs w = dirs w1" "blocked w = blocked w1"
    by (simp_all add: assms(1) download_loop_frame)
  have "files w1 = files w ++ g"
    unfolding assms(1) using fr g by (simp add: download_loop_frame)
  moreover have "files (snd (download_loop ps d dir c' w')) = files w' ++ g"
    using g assms by simp
  ultimately show ?thesis by (simp add: assms map_add_twice)
qed

lemma download_loop_files_grow:
  "files w x \<noteq> None \<Longrightarrow> files (snd (download_loop ps d dir c w)) x \<noteq> None"
proof -
  obtain g where g: "\<And>c w'. dirs w' = dirs w \<Longrightarrow> blocked w' = blocked w \<Longrightarrow>
         files (snd (download_loop ps d dir c w')) = files w' ++ g"
    using download_loop_files [of "dirs w" "blocked w" ps d dir] by blast
  assume "files w x \<noteq> None"
  then show ?thesis by (simp add: g map_add_def split: option.splits)
qed

section \<open>The output directory and the whole download\<close>

lemma ensure_dir_cases:
  "ensure_dir dir w = (Returned (), w) \<and> os_path_exists w dir
   \<or> ensure_dir dir w = (Returned (), w\<lparr>trace := trace w @ [Makedirs dir],
                                        dirs := insert dir (dirs w)\<rparr>)
      \<and> \<not> os_path_exists w dir \<and> dir \<notin> blocked w
   \<or> ensure_dir dir w = (Raised ''OSError'', w\<lparr>trace := trace w @ [Makedirs dir]\<rparr>)
      \<and> \<not> os_path_exists w dir \<and> dir \<in> blocked w"
  by (simp add: ensure_dir_def emit_def Let_def)

lemma ensure_dir_trace:
  "\<exists>evs. trace (snd (ensure_dir dir w)) = trace w @ evs \<and> fetches evs = [] \<and> deletes evs = []
         \<and> inputs evs = [] \<and> downloads evs = [] \<and> failure_lines evs = []"
  using ensure_dir_cases [of dir w] by (elim disjE conjE) (simp_all)

lemma ensure_dir_exists:
  "os_path_exists w dir \<Longrightarrow> ensure_dir dir w = (Returned (), w)"
  by (simp add: ensure_dir_def)

lemma ensure_dir_then_exists:
  "fst (ensure_dir dir w) = Returned () \<Longrightarrow> os_path_exists (snd (ensure_dir dir w)) dir"
  using ensure_dir_cases [of dir w]
  by (elim disjE conjE) (simp_all add: os_path_exists_def)

lemma download_photos_returned:
  assumes "fst (ensure_dir dir w) = Returned ()"
  shows "download_photos a d dir w =
           (Returned (),
            py_print (downloaded_line
                        (length (filter (download_ok (snd (ensure_dir dir w)) dir)
                                   (selection a d))) dir)
              (snd (download_loop (photos_all a) d dir 0 (snd (ensure_dir dir w)))))"
  using assms
  by (cases "ensure_dir dir w")
     (simp add: download_photos_def split_beta download_loop_count selection_def)

lemma download_photos_events:
  assumes "fst (ensure_dir dir w) = Returned ()"
  shows "\<exists>evs. trace (snd (download_photos a d dir w))
                 = trace w @ evs
                     @ [Print (downloaded_line
                                 (length (filter (download_ok (snd (ensure_dir dir w)) dir)
                                            (selection a d))) dir)]
         \<and> fetches evs = photos_all a \<and> deletes evs = [] \<and> inputs evs = []
         \<and> downloads evs = selection a d
         \<and> length (failure_lines evs)
             = length (filter (\<lambda>p. \<not> download_ok (snd (ensure_dir dir w)) dir p)
                         (selection a d))
         \<and> (\<forall>p\<in>set (photos_all a). \<forall>e. created p = Inl e \<longrightarrow>
               Print (could_not_line e) \<in> set evs)"
proof -
  let ?w0 = "snd (ensure_dir dir w)"
  obtain e0 where e0: "trace ?w0 = trace w @ e0" "fetches e0 = []" "deletes e0 = []"
      "inputs e0 = []" "downloads e0 = []" "failure_lines e0 = []"
    using ensure_dir_trace [of dir w] by blast
  obtain evs where evs: "trace (snd (download_loop (photos_all a) d dir 0 ?w0)) = trace ?w0 @ evs"
      "fetches evs = photos_all a" "deletes evs = []" "inputs evs = []"
      "downloads evs = filter (matches d) (photos_all a)"
      "length (failure_lines evs)
         = length (filter (\<lambda>p. \<not> download_ok ?w0 dir p) (filter (matches d) (photos_all a)))"
      "\<forall>p\<in>set (photos_all a). \<forall>e. created p = Inl e \<longrightarrow> Print (could_not_line e) \<in> set evs"
    using download_loop_events [of "photos_all a" d dir 0 ?w0] by blast
  show ?thesis
    apply (rule exI [of _ "e0 @ evs"])
    using e0 evs
    apply (simp add: download_photos_returned [OF assms] py_print_def emit_def selection_def)
    done
qed

section \<open>load\_config and login\<close>

lemma load_config_cases:
  "(\<exists>config. read_config ev path = Inr config
      \<and> load_config ev path w = (Returned config, w\<lparr>trace := trace w @ [ReadConfig path]\<rparr>))
   \<or> (\<exists>e. read_config ev path = Inl e
      \<and> load_config ev path w
          = (Exited 1, w\<lparr>trace := trace w @ [ReadConfig path,
                                               Print (''Error loading config file: '' @ e)]\<rparr>))"
  by (cases "read_config ev path") (simp_all add: load_config_def emit_def py_print_def Let_def)

lemma login_2fa_events:
  "\<exists>evs. trace (snd (login_2fa a w)) = trace w @ evs \<and> list_all safe_event evs"
  by (cases "stdin w")
     (simp_all add: login_2fa_def py_print_def py_input_def emit_def Let_def safe_event_def
        invalid_date_line_def)

lemma login_2sa_events:
  "\<exists>evs. trace (snd (login_2sa a w)) = trace w @ evs \<and> list_all safe_event evs"
  by (cases "stdin w")
     (simp_all add: login_2sa_def py_print_def py_input_def emit_def Let_def safe_event_def
        invalid_date_line_def)

lemma login_2fa_status:
  "fst (login_2fa a w) = Returned a \<or> exit_status (fst (login_2fa a w)) = 1"
  by (cases "stdin w")
     (simp_all add: login_2fa_def py_print_def py_input_def emit_def Let_def)

lemma login_2sa_status:
  "fst (login_2sa a w) = Returned a \<or> exit_status (fst (login_2sa a w)) = 1"
  by (cases "stdin w")
     (simp_all add: login_2sa_def py_print_def py_input_def emit_def Let_def)

lemma login_events:
  "\<exists>evs. trace (snd (login ev config w)) = trace w @ evs \<and> list_all safe_event evs
         \<and> ((\<exists>a. fst (login ev config w) = Returned a) \<longrightarrow>
              (\<exists>u p post. evs = Authenticate u p # post))"
proof (cases "py_get config (YStr ''icloud'') (YMap [])")
  case (Inl e)
  then show ?thesis by (intro exI [of _ "[]"]) (simp add: login_def)
next
  case ic: (Inr icloud_config)
  show ?thesis
  proof (cases "py_get icloud_config (YStr ''username'') YNull")
    case (Inl e)
    with ic show ?thesis by (intro exI [of _ "[]"]) (simp add: login_def)
  next
    case u: (Inr username)
    show ?thesis
    proof (cases "py_get icloud_config (YStr ''password'') YNull")
      case (Inl e)
      with ic u show ?thesis by (intro exI [of _ "[]"]) (simp add: login_def)
    next
      case p: (Inr password)
      show ?thesis
      proof (cases "\<not> truthy username \<or> \<not> truthy password")
        case True
        with ic u p show ?thesis
          by (intro exI [of _ "[Print no_credentials_line]"])
             (auto simp add: login_def py_print_def emit_def safe_event_def
                no_credentials_line_def invalid_date_line_def)
      next
        case False
        let ?w1 = "emit (Authenticate username password) w"
        have tw1: "trace ?w1 = trace w @ [Authenticate username password]"
          by (simp add: emit_def)
        show ?thesis
        proof (cases "PyiCloudService ev username password")
          case (Inl e)
          with ic u p False show ?thesis
            by (intro exI [of _ "[Authenticate username password]"])
               (auto simp add: login_def emit_def safe_event_def Let_def)
        next
          case (Inr a)
          have lg: "login ev config w =
                      (if requires_2fa a then login_2fa a ?w1
                       else if requires_2sa a then login_2sa a ?w1
                       else (Returned a, ?w1))"
            using ic u p False Inr by (simp add: login_def Let_def)
          have "\<exists>evs. trace (snd (login ev config w)) = trace ?w1 @ evs
                     \<and> list_all safe_event evs"
            using login_2fa_events [of a ?w1] login_2sa_events [of a ?w1]
            by (simp add: lg)
          then obtain evs where evs: "trace (snd (login ev config w)) = trace ?w1 @ evs"
              "list_all safe_event evs"
            by blast
          show ?thesis
            using evs
            by (intro exI [of _ "Authenticate username password # evs"])
               (simp add: tw1 safe_event_def)
        qed
      qed
    qed
  qed
qed

lemma login_status:
  "(\<exists>a. fst (login ev config w) = Returned a) \<or> exit_status (fst (login ev config w)) = 1"
proof -
  have "(\<exists>a'. fst (login_2fa a w1) = Returned a') \<or> exit_status (fst (login_2fa a w1)) = 1"
       "(\<exists>a'. fst (login_2sa a w1) = Returned a') \<or> exit_status (fst (login_2sa a w1)) = 1"
    for a w1
    using login_2fa_status [of a w1] login_2sa_status [of a w1] by blast+
  then show ?thesis
    by (simp add: login_def Let_def split: sum.splits)
qed

lemma login_missing_credentials:
  assumes "well_shaped config"
    and "credential_missing config ''username'' \<or> credential_missing config ''password''"
  shows "login ev config w = (Exited 1, py_print no_credentials_line w)"
  using assms
  by (auto simp add: login_def well_shaped_def credential_missing_def credential_def
        split: yaml.splits option.splits)

lemma login_not_well_shaped:
  assumes "\<not> well_shaped config"
  shows "login ev config w = (Raised ''AttributeError'', w)"
  using assms
  by (auto simp add: login_def well_shaped_def split: yaml.splits option.splits)

lemma login_never_authenticates_without_credentials:
  assumes "credential_missing config ''username'' \<or> credential_missing config ''password''"
  shows "exit_status (fst (login ev config w)) = 1
         \<and> (trace (snd (login ev config w)) = trace w
            \<or> trace (snd (login ev config w)) = trace w @ [Print no_credentials_line])"
proof (cases "well_shaped config")
  case True
  show ?thesis
    by (simp add: login_missing_credentials [OF True assms] py_print_def emit_def)
next
  case False
  show ?thesis
    by (simp add: login_not_well_shaped [OF False])
qed

lemma login_falsy_values:
  "v \<in> {YNull, YStr '''', YInt 0, YBool False, YList [], YMap []} \<Longrightarrow>
   login ev (YMap [(YStr ''icloud'',
                    YMap [(YStr ''username'', v), (YStr ''password'', YStr ''secret'')])]) w
     = (Exited 1, py_print no_credentials_line w)"
  by (rule login_missing_credentials)
     (auto simp add: well_shaped_def credential_missing_def credential_def)

section \<open>The sample data\<close>

lemmas sample_defs = photo_a_def photo_b_def photo_c_def photo_x_def sample_api_def
  sample_world_def

lemma ensure_dir_sample: "fst (ensure_dir ''downloads'' (sample_world ls)) = Returned ()"
  by (simp add: ensure_dir_def sample_world_def os_path_exists_def emit_def Let_def)

lemma ensure_dir_sample_world:
  "dirs (snd (ensure_dir ''downloads'' (sample_world ls))) = {''downloads''}"
  "blocked (snd (ensure_dir ''downloads'' (sample_world ls))) = {}"
  by (simp_all add: ensure_dir_def sample_world_def os_path_exists_def emit_def Let_def)

section \<open>The claims\<close>

text \<open>
  C1.  In every run of \<open>delete_photos\<close> the whole generator is consumed and the line
  with the total count of matching photos is printed before the one call of \<open>input\<close>;
  no \<open>delete()\<close> is called before that call, no second prompt follows it, and
  \<open>delete()\<close> is called afterwards only when the answer read is the word yes (in any
  letter case), then once for each matching photo, in their order.
\<close>

theorem C1_single_confirmation_prompt:
  "\<exists>pre line post.
     trace (snd (delete_photos a d w))
       = trace w @ pre
           @ [Print (found_line (length (filter (matches d) (photos_all a)))),
              Input confirm_prompt line]
           @ post
     \<and> fetches pre = photos_all a \<and> deletes pre = [] \<and> inputs pre = []
     \<and> fetches post = [] \<and> inputs post = []
     \<and> deletes post = (case line of
                         Some answer \<Rightarrow>
                           if yes_token answer then filter (matches d) (photos_all a) else []
                       | None \<Rightarrow> [])"
proof (cases "stdin w")
  case Nil
  show ?thesis
    apply (rule exI [of _ "concat (map fetch_events (photos_all a))"])
    apply (rule exI [of _ None])
    apply (rule exI [of _ "[]"])
    apply (simp add: delete_photos_eof [OF Nil] prompt_events_def selection_def)
    done
next
  case (Cons answer rest)
  show ?thesis
    apply (rule exI [of _ "concat (map fetch_events (photos_all a))"])
    apply (rule exI [of _ "Some answer"])
    apply (rule exI [of _ "after_prompt a d answer"])
    apply (simp add: delete_photos_answer [OF Cons] prompt_events_def selection_def)
    done
qed

text \<open>
  C2.  When a line is read at the prompt, \<open>delete_photos\<close> returns normally (the process
  ends with status 0) whatever the line is.  No \<open>delete()\<close> is called before the prompt.
  The test \<open>confirm.lower() != "yes"\<close> lets exactly the eight spellings of the word yes
  through.  If the line is one of them, \<open>delete()\<close> is called on every matching photo,
  in order, and the last line printed is the summary; for any other line (the empty line,
  no, y, ...) nothing is deleted and the only thing that follows the prompt is the message
  that the deletion was canceled.
\<close>

theorem C2_confirmation_token:
  assumes "stdin w = answer # rest"
  shows "fst (delete_photos a d w) = Returned ()
         \<and> exit_status (fst (delete_photos a d w)) = 0
         \<and> yes_token answer = (lower answer = ''yes'')
         \<and> (\<exists>pre post.
               trace (snd (delete_photos a d w))
                 = trace w @ pre @ [Input confirm_prompt (Some answer)] @ post
               \<and> deletes pre = []
               \<and> (if yes_token answer
                  then deletes post = filter (matches d) (photos_all a)
                       \<and> last post
                           = Print (deleted_line
                               (length (filter (\<lambda>p. delete_result p = None)
                                          (filter (matches d) (photos_all a))))
                               (length (filter (matches d) (photos_all a))))
                  else post = [Print ''Deletion canceled.'']))"
proof -
  let ?pre = "concat (map fetch_events (photos_all a)) @ [Print (found_line (length (selection a d)))]"
  let ?post = "after_prompt a d answer"
  have tr: "trace (snd (delete_photos a d w))
          = trace w @ ?pre @ [Input confirm_prompt (Some answer)] @ ?post"
    by (simp add: delete_photos_answer [OF assms] prompt_events_def)
  have pre: "deletes ?pre = []" by simp
  have post: "if yes_token answer
                  then deletes ?post = filter (matches d) (photos_all a)
                       \<and> last ?post
                           = Print (deleted_line
                               (length (filter (\<lambda>p. delete_result p = None)
                                          (filter (matches d) (photos_all a))))
                               (length (filter (matches d) (photos_all a))))
                  else ?post = [Print ''Deletion canceled.'']"
    by (simp add: after_prompt_def selection_def)
  have "\<exists>pre post.
               trace (snd (delete_photos a d w))
                 = trace w @ pre @ [Input confirm_prompt (Some answer)] @ post
               \<and> deletes pre = []
               \<and> (if yes_token answer
                  then deletes post = filter (matches d) (photos_all a)
                       \<and> last post
                           = Print (deleted_line
                               (length (filter (\<lambda>p. delete_result p = None)
                                          (filter (matches d) (photos_all a))))
                               (length (filter (matches d) (photos_all a))))
                  else post = [Print ''Deletion canceled.''])"
    using tr pre post by blast
  then show ?thesis
    by (simp add: delete_photos_answer [OF assms] lower_yes)
qed

theorem C2_confirmation_token_witness:
  "stdin (sample_world [''y'']) = ''y'' # []
   \<and> \<not> yes_token ''y''
   \<and> fst (delete_photos (sample_api [photo_a, photo_b]) sample_cutoff (sample_world [''y'']))
       = Returned ()
   \<and> (\<exists>pre. trace (snd (delete_photos (sample_api [photo_a, photo_b]) sample_cutoff
                         (sample_world [''y''])))
              = pre @ [Input confirm_prompt (Some ''y''), Print ''Deletion canceled.'']
            \<and> deletes pre = [])
   \<and> stdin (sample_world [''YES'']) = ''YES'' # []
   \<and> yes_token ''YES''
   \<and> (\<exists>pre post. trace (snd (delete_photos (sample_api [photo_a, photo_b]) sample_cutoff
                         (sample_world [''YES''])))
              = pre @ [Input confirm_prompt (Some ''YES'')] @ post
            \<and> deletes pre = [] \<and> deletes post = [photo_a, photo_b]
            \<and> last post = Print ''Deleted 1 out of 2 photos.'')"
proof -
  have st: "stdin (sample_world [''y'']) = ''y'' # []"
    by (simp add: sample_world_def)
  have no: "\<not> yes_token ''y''"
    by (simp add: yes_token_def)
  have st': "stdin (sample_world [''YES'']) = ''YES'' # []"
    by (simp add: sample_world_def)
  have yes: "yes_token ''YES''"
    by (simp add: yes_token_def)
  have sel: "filter (matches sample_cutoff) (photos_all (sample_api [photo_a, photo_b]))
               = [photo_a, photo_b]"
    by (simp add: matches_def sample_defs sample_cutoff_def)
  have f1: "delete_result photo_a = None" "delete_result photo_b = Some ''refused''"
    by (simp_all add: sample_defs)
  have l1: "deleted_line (Suc 0) (Suc (Suc 0)) = ''Deleted 1 out of 2 photos.''"
    by (simp add: deleted_line_def str_nat.simps digit_def)
  have t: "trace (sample_world ls) = []" for ls
    by (simp add: sample_world_def)
  have a: "\<exists>pre. trace (snd (delete_photos (sample_api [photo_a, photo_b]) sample_cutoff
                         (sample_world [''y''])))
              = pre @ [Input confirm_prompt (Some ''y''), Print ''Deletion canceled.'']
            \<and> deletes pre = []"
    and r: "fst (delete_photos (sample_api [photo_a, photo_b]) sample_cutoff (sample_world [''y'']))
       = Returned ()"
    using C2_confirmation_token [OF st, of "sample_api [photo_a, photo_b]" sample_cutoff] no
    by (simp_all add: t)
  have b: "\<exists>pre post. trace (snd (delete_photos (sample_api [photo_a, photo_b]) sample_cutoff
                         (sample_world [''YES''])))
              = pre @ [Input confirm_prompt (Some ''YES'')] @ post
            \<and> deletes pre = [] \<and> deletes post = [photo_a, photo_b]
            \<and> last post = Print ''Deleted 1 out of 2 photos.''"
    using C2_confirmation_token [OF st', of "sample_api [photo_a, photo_b]" sample_cutoff] yes
    by (simp add: t sel f1 l1)
  show ?thesis
    using st no r a st' yes b by blast
qed

text \<open>
  C3.  As stated the claim fails: \<open>main\<close> calls \<open>load_config\<close> and \<open>login\<close> before
  \<open>parse_date\<close>.  With credentials in the configuration and a date that does not
  parse, the session constructor is called first and the message about the date is
  printed afterwards.
\<close>

theorem C3_counterexample:
  "strptime sample_env ''01/01/2022'' = None
   \<and> main sample_env (sample_args Delete ''01/01/2022'') (sample_world [])
       = (Exited 1,
          (sample_world [])
            \<lparr>trace := [ReadConfig ''config.yaml'',
                       Authenticate (YStr ''user@example.com'') (YStr ''secret''),
                       Print invalid_date_line]\<rparr>)"
  by (simp add: main_def load_config_def login_def parse_date_def sample_env_def
        sample_args_def sample_config_def sample_strptime_def sample_api_def sample_world_def
        emit_def py_print_def Let_def)

text \<open>
  C3, amended.  For every invocation with a sub-command whose \<open>--date\<close> does not parse,
  the process ends with status 1 and no photo is fetched, downloaded or deleted.  The date
  is parsed after the configuration is loaded and \<open>login\<close> has returned: when both
  succeed, the run ends by printing the message about the date and leaving with
  \<open>sys.exit(1)\<close>, and wherever that message is printed the call of the session
  constructor comes before it in the trace.
\<close>

theorem C3_invalid_date_after_login:
  assumes "args_command ar = Some cmd" and "strptime ev (args_date ar) = None"
  shows "exit_status (fst (main ev ar w)) = 1
         \<and> (\<exists>evs. trace (snd (main ev ar w)) = trace w @ evs
                \<and> fetches evs = [] \<and> downloads evs = [] \<and> deletes evs = []
                \<and> (Print invalid_date_line \<in> set evs \<longrightarrow>
                     (\<exists>pre u p post.
                         evs = pre @ [Authenticate u p] @ post @ [Print invalid_date_line])))
         \<and> ((\<exists>config w1 a w2.
                load_config ev (args_config ar) w = (Returned config, w1)
                \<and> login ev config w1 = (Returned a, w2)) \<longrightarrow>
              fst (main ev ar w) = Exited 1
              \<and> last (trace (snd (main ev ar w))) = Print invalid_date_line)"
proof -
  let ?path = "args_config ar"
  consider (bad) e where "read_config ev ?path = Inl e"
      "load_config ev ?path w
         = (Exited 1, w\<lparr>trace := trace w @ [ReadConfig ?path,
                                              Print (''Error loading config file: '' @ e)]\<rparr>)"
    | (good) config where "read_config ev ?path = Inr config"
      "load_config ev ?path w = (Returned config, w\<lparr>trace := trace w @ [ReadConfig ?path]\<rparr>)"
    using load_config_cases [of ev ?path w] by blast
  then show ?thesis
  proof cases
    case bad
    have m: "main ev ar w
               = (Exited 1, w\<lparr>trace := trace w @ [ReadConfig ?path,
                                  Print (''Error loading config file: '' @ e)]\<rparr>)"
      by (simp add: main_def assms(1) bad(2))
    show ?thesis
      by (simp add: m bad(2) invalid_date_line_def)
  next
    case good
    let ?w1 = "w\<lparr>trace := trace w @ [ReadConfig ?path]\<rparr>"
    obtain evs where evs: "trace (snd (login ev config ?w1)) = trace ?w1 @ evs"
        "list_all safe_event evs"
        "(\<exists>a. fst (login ev config ?w1) = Returned a) \<longrightarrow>
            (\<exists>u p post. evs = Authenticate u p # post)"
      using login_events [of ev config ?w1] by blast
    note safe = safe_events [OF evs(2)]
    show ?thesis
    proof (cases "\<exists>a. fst (login ev config ?w1) = Returned a")
      case True
      then obtain a w2 where lg: "login ev config ?w1 = (Returned a, w2)"
        by (cases "login ev config ?w1") auto
      obtain u p post where post: "evs = Authenticate u p # post"
        using evs(3) True by blast
      have tw2: "trace w2 = trace ?w1 @ evs"
        using evs(1) by (simp add: lg)
      have m: "main ev ar w = (Exited 1, py_print invalid_date_line w2)"
        by (simp add: main_def assms good(2) parse_date_def lg)
      have tr: "trace (snd (main ev ar w))
                  = trace w @ ([ReadConfig ?path] @ [Authenticate u p] @ post
                                 @ [Print invalid_date_line])"
        by (simp add: m py_print_def emit_def tw2 post)
      have pr: "fetches ([ReadConfig ?path] @ [Authenticate u p] @ post
                           @ [Print invalid_date_line]) = []"
          "downloads ([ReadConfig ?path] @ [Authenticate u p] @ post
                           @ [Print invalid_date_line]) = []"
          "deletes ([ReadConfig ?path] @ [Authenticate u p] @ post
                           @ [Print invalid_date_line]) = []"
        using safe by (simp_all add: post)
      have "\<exists>evs. trace (snd (main ev ar w)) = trace w @ evs
                \<and> fetches evs = [] \<and> downloads evs = [] \<and> deletes evs = []
                \<and> (Print invalid_date_line \<in> set evs \<longrightarrow>
                     (\<exists>pre u p post.
                         evs = pre @ [Authenticate u p] @ post @ [Print invalid_date_line]))"
        using tr pr by blast
      moreover have "fst (main ev ar w) = Exited 1"
          "last (trace (snd (main ev ar w))) = Print invalid_date_line"
        by (simp_all add: m py_print_def emit_def)
      ultimately show ?thesis by simp
    next
      case False
      then have st: "exit_status (fst (login ev config ?w1)) = 1"
        using login_status [of ev config ?w1] by blast
      have m: "main ev ar w = login_failed"
        if "login_failed = (case fst (login ev config ?w1) of
                              Exited n \<Rightarrow> (Exited n, snd (login ev config ?w1))
                            | Raised e \<Rightarrow> (Raised e, snd (login ev config ?w1))
                            | Returned a \<Rightarrow> undefined)" for login_failed
        using False that
        by (cases "login ev config ?w1"; cases "fst (login ev config ?w1)")
           (auto simp add: main_def assms(1) good(2))
      have fs: "exit_status (fst (main ev ar w)) = 1"
        and tr: "trace (snd (main ev ar w)) = trace w @ ([ReadConfig ?path] @ evs)"
        using False st evs(1) m [OF refl]
        by (cases "fst (login ev config ?w1)"; simp)+
      have nl: "\<not> (\<exists>config w1 a w2.
                load_config ev (args_config ar) w = (Returned config, w1)
                \<and> login ev config w1 = (Returned a, w2))"
        using False by (auto simp add: good(2))
      have "\<exists>evs. trace (snd (main ev ar w)) = trace w @ evs
                \<and> fetches evs = [] \<and> downloads evs = [] \<and> deletes evs = []
                \<and> (Print invalid_date_line \<in> set evs \<longrightarrow>
                     (\<exists>pre u p post.
                         evs = pre @ [Authenticate u p] @ post @ [Print invalid_date_line]))"
        using tr safe by (intro exI [of _ "[ReadConfig ?path] @ evs"]) simp
      then show ?thesis using fs nl by blast
    qed
  qed
qed

theorem C3_invalid_date_after_login_witness:
  "args_command (sample_args Download ''20220101'') = Some Download
   \<and> strptime sample_env (args_date (sample_args Download ''20220101'')) = None
   \<and> exit_status (fst (main sample_env (sample_args Download ''20220101'') (sample_world []))) = 1
   \<and> fst (main sample_env (sample_args Download ''20220101'') (sample_world [])) = Exited 1
   \<and> last (trace (snd (main sample_env (sample_args Download ''20220101'') (sample_world []))))
       = Print invalid_date_line
   \<and> (\<exists>evs. trace (snd (main sample_env (sample_args Download ''20220101'') (sample_world [])))
               = evs
             \<and> fetches evs = [] \<and> downloads evs = [] \<and> deletes evs = []
             \<and> (\<exists>pre u p post.
                    evs = pre @ [Authenticate u p] @ post @ [Print invalid_date_line]))"
proof -
  let ?ar = "sample_args Download ''20220101''"
  have c: "args_command ?ar = Some Download"
    by (simp add: sample_args_def)
  have d: "strptime sample_env (args_date ?ar) = None"
    by (simp add: sample_args_def sample_env_def sample_strptime_def)
  have l: "\<exists>config w1 a w2.
             load_config sample_env (args_config ?ar) (sample_world []) = (Returned config, w1)
             \<and> login sample_env config w1 = (Returned a, w2)"
    by (simp add: load_config_def login_def sample_env_def sample_args_def sample_config_def
          sample_api_def emit_def Let_def)
  have t: "trace (sample_world []) = []"
    by (simp add: sample_world_def)
  from C3_invalid_date_after_login [OF c d, of "sample_world []"] l
  have 1: "exit_status (fst (main sample_env ?ar (sample_world []))) = 1"
    and 2: "fst (main sample_env ?ar (sample_world [])) = Exited 1"
    and 3: "last (trace (snd (main sample_env ?ar (sample_world [])))) = Print invalid_date_line"
    and 4: "\<exists>evs. trace (snd (main sample_env ?ar (sample_world []))) = evs
                \<and> fetches evs = [] \<and> downloads evs = [] \<and> deletes evs = []
                \<and> (Print invalid_date_line \<in> set evs \<longrightarrow>
                     (\<exists>pre u p post.
                         evs = pre @ [Authenticate u p] @ post @ [Print invalid_date_line]))"
    by (simp_all add: t)
  have ne: "trace (snd (main sample_env ?ar (sample_world []))) \<noteq> []"
    by (simp add: main_def load_config_def login_def parse_date_def sample_env_def
        sample_args_def sample_config_def sample_strptime_def sample_api_def sample_world_def
        emit_def py_print_def Let_def)
  have "Print invalid_date_line \<in> set (trace (snd (main sample_env ?ar (sample_world []))))"
    using 3 ne by (metis last_in_set)
  with 4 have "\<exists>evs. trace (snd (main sample_env ?ar (sample_world []))) = evs
             \<and> fetches evs = [] \<and> downloads evs = [] \<and> deletes evs = []
             \<and> (\<exists>pre u p post.
                    evs = pre @ [Authenticate u p] @ post @ [Print invalid_date_line])"
    by simp
  with c d 1 2 3 show ?thesis by blast
qed

text \<open>
  C4.  As stated the claim fails: with no photo in the library, \<open>delete_photos\<close> still
  asks for the confirmation and reads the answer from standard input.
\<close>

theorem C4_counterexample:
  "photos_all (sample_api []) = []
   \<and> delete_photos (sample_api []) sample_cutoff (sample_world [''no''])
       = (Returned (),
          (sample_world [])
            \<lparr>trace := [Print ''Found 0 photos to delete.'',
                       Input confirm_prompt (Some ''no''),
                       Print ''Deletion canceled.'']\<rparr>)"
proof -
  have st: "stdin (sample_world [''no'']) = ''no'' # []"
    by (simp add: sample_world_def)
  have no: "\<not> yes_token ''no''"
    by (simp add: yes_token_def)
  show ?thesis
    by (simp add: delete_photos_answer [OF st] prompt_events_def after_prompt_def no)
       (simp add: sample_api_def sample_world_def selection_def found_line_def
          str_nat.simps digit_def)
qed

text \<open>
  C4, amended.  When the generator yields no photo, nothing is collected;
  \<open>delete_photos\<close> prints that it found 0 photos to delete, then asks for the
  confirmation once, as in every run, and calls no \<open>delete()\<close> whatever the answer; in
  the corresponding download run, when the output directory could be ensured, no
  \<open>download()\<close> is called and the line printed says that 0 photos were downloaded to the
  output directory.
\<close>

theorem C4_empty_enumeration:
  assumes "photos_all a = []"
  shows "fst (collect_photos (photos_all a) d [] w) = []
         \<and> (\<exists>line post.
               trace (snd (delete_photos a d w))
                 = trace w @ [Print ''Found 0 photos to delete.'', Input confirm_prompt line]
                     @ post
               \<and> deletes post = [] \<and> inputs post = [])
         \<and> (fst (ensure_dir dir w) = Returned () \<longrightarrow>
               (\<exists>evs. trace (snd (download_photos a d dir w))
                        = trace w @ evs
                            @ [Print (''Downloaded 0 photos to '' @ [CHR 0x27] @ dir
                                        @ [CHR 0x27] @ ''.'')]
                      \<and> downloads evs = [] \<and> set evs \<subseteq> {Makedirs dir}))"
proof (intro conjI impI)
  have sel: "selection a d = []"
    by (simp add: selection_def assms)
  show "fst (collect_photos (photos_all a) d [] w) = []"
    by (simp add: assms)
  show "\<exists>line post.
               trace (snd (delete_photos a d w))
                 = trace w @ [Print ''Found 0 photos to delete.'', Input confirm_prompt line]
                     @ post
               \<and> deletes post = [] \<and> inputs post = []"
  proof (cases "stdin w")
    case Nil
    show ?thesis
      by (intro exI [of _ None] exI [of _ "[]"])
         (simp add: delete_photos_eof [OF Nil] prompt_events_def sel assms found_line_0)
  next
    case (Cons answer rest)
    show ?thesis
      by (intro exI [of _ "Some answer"] exI [of _ "after_prompt a d answer"])
         (simp add: delete_photos_answer [OF Cons] prompt_events_def sel assms found_line_0)
  qed
next
  assume ok: "fst (ensure_dir dir w) = Returned ()"
  have sel: "selection a d = []"
    by (simp add: selection_def assms)
  let ?w0 = "snd (ensure_dir dir w)"
  have "\<exists>evs. trace ?w0 = trace w @ evs \<and> set evs \<subseteq> {Makedirs dir}"
    using ensure_dir_cases [of dir w] by (elim disjE conjE) simp_all
  then obtain evs where evs: "trace ?w0 = trace w @ evs" "set evs \<subseteq> {Makedirs dir}"
    by blast
  have dl: "downloads evs = []"
    using evs(2) by (induction evs) auto
  show "\<exists>evs. trace (snd (download_photos a d dir w))
                        = trace w @ evs
                            @ [Print (''Downloaded 0 photos to '' @ [CHR 0x27] @ dir
                                        @ [CHR 0x27] @ ''.'')]
                      \<and> downloads evs = [] \<and> set evs \<subseteq> {Makedirs dir}"
    using evs dl
    by (intro exI [of _ evs])
       (simp add: download_photos_returned [OF ok] sel assms py_print_def emit_def
          downloaded_line_0)
qed

theorem C4_empty_enumeration_witness:
  "photos_all (sample_api []) = []
   \<and> fst (ensure_dir ''downloads'' (sample_world [''yes''])) = Returned ()
   \<and> (\<exists>line post.
         trace (snd (delete_photos (sample_api []) sample_cutoff (sample_world [''yes''])))
           = [Print ''Found 0 photos to delete.'', Input confirm_prompt line] @ post
         \<and> deletes post = [] \<and> inputs post = [])
   \<and> (\<exists>evs. trace (snd (download_photos (sample_api []) sample_cutoff ''downloads''
                         (sample_world [''yes''])))
              = evs @ [Print (''Downloaded 0 photos to '' @ [CHR 0x27] @ ''downloads''
                                @ [CHR 0x27] @ ''.'')]
            \<and> downloads evs = [])"
proof -
  have e: "photos_all (sample_api []) = []"
    by (simp add: sample_api_def)
  have t: "trace (sample_world [''yes'']) = []"
    by (simp add: sample_world_def)
  show ?thesis
    using C4_empty_enumeration [OF e, of sample_cutoff "sample_world [''yes'']" "''downloads''"]
      e ensure_dir_sample [of "[''yes'']"]
    by (simp add: t) blast
qed

text \<open>
  C5.  Both loops select the same photos: those whose creation date can be read and is on
  or before the cutoff.  \<open>delete_photos\<close> collects exactly them, and \<open>download_photos\<close>
  calls \<open>download()\<close> on exactly them, in the order of the generator.  A photo with a
  readable date \<open>d\<close> is selected if and only if \<open>d\<close> is on or before the cutoff, and a
  photo created on the cutoff date itself is selected.
\<close>

theorem C5_inclusive_cutoff:
  "fst (collect_photos (photos_all a) c [] w) = filter (matches c) (photos_all a)
   \<and> downloads (trace (snd (download_loop (photos_all a) c dir n w)))
       = downloads (trace w) @ filter (matches c) (photos_all a)
   \<and> (\<forall>p\<in>set (photos_all a). \<forall>d. created p = Inr d \<longrightarrow>
         (p \<in> set (filter (matches c) (photos_all a)) \<longleftrightarrow> date_le d c))
   \<and> (\<forall>p\<in>set (photos_all a). created p = Inr c \<longrightarrow>
         p \<in> set (filter (matches c) (photos_all a)))"
  by (simp add: collect_photos_eq download_loop_proj matches_def date_le_refl)

theorem C5_inclusive_cutoff_witness:
  "fst (collect_photos (photos_all (sample_api [photo_a, photo_b, photo_c])) (Date 2022 1 1) []
         (sample_world []))
     = [photo_a, photo_b]
   \<and> downloads (trace (snd (download_loop (photos_all (sample_api [photo_a, photo_b, photo_c]))
                              (Date 2022 1 1) ''downloads'' 0 (sample_world []))))
     = [photo_a, photo_b]"
  using C5_inclusive_cutoff [of "sample_api [photo_a, photo_b, photo_c]" "Date 2022 1 1"
          "sample_world []" "''downloads''" 0]
  by (simp add: sample_defs matches_def)

text \<open>
  C6.  A photo of the generator whose creation date cannot be read is not collected for
  deletion, and neither \<open>delete()\<close> nor \<open>download()\<close> is called on it, whatever the
  cutoff.  The loop prints the diagnostic for it and goes on: every photo of the generator
  is still fetched.  (\<open>download_photos\<close> reaches its loop when the output directory could
  be ensured.)
\<close>

theorem C6_unreadable_date_skipped:
  assumes "p \<in> set (photos_all a)" and "created p = Inl e"
  shows "p \<notin> set (fst (collect_photos (photos_all a) c [] w))
         \<and> (\<exists>evs. trace (snd (delete_photos a c w)) = trace w @ evs
                  \<and> Print (could_not_line e) \<in> set evs
                  \<and> fetches evs = photos_all a
                  \<and> p \<notin> set (deletes evs))
         \<and> (fst (ensure_dir dir w) = Returned () \<longrightarrow>
             (\<exists>evs. trace (snd (download_photos a c dir w)) = trace w @ evs
                  \<and> Print (could_not_line e) \<in> set evs
                  \<and> fetches evs = photos_all a
                  \<and> p \<notin> set (downloads evs)))"
proof (intro conjI impI)
  have nm: "\<not> matches c p"
    using assms(2) by (simp add: matches_def)
  then have ns: "p \<notin> set (selection a c)"
    by (simp add: selection_def)
  show "p \<notin> set (fst (collect_photos (photos_all a) c [] w))"
    using nm by (simp add: collect_photos_eq)
  obtain evs where evs:
      "trace (snd (delete_photos a c w)) = trace w @ concat (map fetch_events (photos_all a)) @ evs"
      "fetches evs = []" "set (deletes evs) \<subseteq> set (selection a c)"
    using delete_photos_events by blast
  show "\<exists>evs. trace (snd (delete_photos a c w)) = trace w @ evs
                  \<and> Print (could_not_line e) \<in> set evs
                  \<and> fetches evs = photos_all a
                  \<and> p \<notin> set (deletes evs)"
    using evs ns could_not_in_fetch_events [OF assms]
    by (intro exI [of _ "concat (map fetch_events (photos_all a)) @ evs"]) auto
next
  assume ok: "fst (ensure_dir dir w) = Returned ()"
  have ns: "p \<notin> set (selection a c)"
    using assms(2) by (simp add: selection_def matches_def)
  obtain evs where evs: "trace (snd (download_photos a c dir w))
                 = trace w @ evs
                     @ [Print (downloaded_line
                                 (length (filter (download_ok (snd (ensure_dir dir w)) dir)
                                            (selection a c))) dir)]"
      "fetches evs = photos_all a" "downloads evs = selection a c"
      "\<forall>p\<in>set (photos_all a). \<forall>e. created p = Inl e \<longrightarrow> Print (could_not_line e) \<in> set evs"
    using download_photos_events [OF ok, of a c] by blast
  let ?evs = "evs @ [Print (downloaded_line
                                 (length (filter (download_ok (snd (ensure_dir dir w)) dir)
                                            (selection a c))) dir)]"
  show "\<exists>evs. trace (snd (download_photos a c dir w)) = trace w @ evs
                  \<and> Print (could_not_line e) \<in> set evs
                  \<and> fetches evs = photos_all a
                  \<and> p \<notin> set (downloads evs)"
    using evs ns assms by (intro exI [of _ ?evs]) auto
qed

theorem C6_unreadable_date_skipped_witness:
  "photo_x \<in> set (photos_all (sample_api [photo_x, photo_a]))
   \<and> created photo_x = Inl ''no timestamp''
   \<and> fst (ensure_dir ''downloads'' (sample_world [''yes''])) = Returned ()
   \<and> photo_x \<notin> set (fst (collect_photos (photos_all (sample_api [photo_x, photo_a]))
                            (Date 2022 1 1) [] (sample_world [''yes''])))
   \<and> (\<exists>evs. trace (snd (delete_photos (sample_api [photo_x, photo_a]) (Date 2022 1 1)
                        (sample_world [''yes''])))
              = evs
         \<and> Print ''Could not determine creation date for a photo: no timestamp'' \<in> set evs
         \<and> fetches evs = [photo_x, photo_a]
         \<and> photo_x \<notin> set (deletes evs))
   \<and> (\<exists>evs. trace (snd (download_photos (sample_api [photo_x, photo_a]) (Date 2022 1 1)
                        ''downloads'' (sample_world [''yes''])))
              = evs
         \<and> Print ''Could not determine creation date for a photo: no timestamp'' \<in> set evs
         \<and> fetches evs = [photo_x, photo_a]
         \<and> photo_x \<notin> set (downloads evs))"
proof -
  have m: "photo_x \<in> set (photos_all (sample_api [photo_x, photo_a]))"
    by (simp add: sample_api_def)
  have c: "created photo_x = Inl ''no timestamp''"
    by (simp add: photo_x_def)
  have e: "fst (ensure_dir ''downloads'' (sample_world [''yes''])) = Returned ()"
    by (simp add: ensure_dir_def sample_world_def os_path_exists_def emit_def Let_def)
  have t: "trace (sample_world [''yes'']) = []" "photos_all (sample_api [photo_x, photo_a]) = [photo_x, photo_a]"
    by (simp_all add: sample_world_def sample_api_def)
  show ?thesis
    using C6_unreadable_date_skipped [OF m c, of "Date 2022 1 1" "sample_world [''yes'']" "''downloads''"]
      m c e
    by (simp add: t could_not_line_def)
qed

text \<open>
  C7.  Let N be the number of matching photos.  In a delete run whose answer is yes,
  \<open>delete()\<close> is called on all N photos in order even when some calls raise; each of
  the k failures is logged by one line, and the last line reports N - k deleted out of N.
  In a download run whose output directory could be ensured, \<open>download()\<close> is called on
  all N photos, each of the k failed downloads is logged by one line, and the last line
  reports N - k downloaded.  Both runs return normally.
\<close>

theorem C7_partial_failure:
  "(stdin w = answer # rest \<and> yes_token answer \<longrightarrow>
      fst (delete_photos a d w) = Returned ()
      \<and> (\<exists>pre post.
            trace (snd (delete_photos a d w))
              = trace w @ pre @ [Input confirm_prompt (Some answer)] @ post
            \<and> deletes post = selection a d
            \<and> length (failure_lines post)
                = length (filter (\<lambda>p. delete_result p \<noteq> None) (selection a d))
            \<and> last post
                = Print (deleted_line
                    (length (selection a d)
                       - length (filter (\<lambda>p. delete_result p \<noteq> None) (selection a d)))
                    (length (selection a d)))))
   \<and> (fst (ensure_dir dir w) = Returned () \<longrightarrow>
      fst (download_photos a d dir w) = Returned ()
      \<and> (\<exists>evs.
            trace (snd (download_photos a d dir w))
              = trace w @ evs
                  @ [Print (downloaded_line
                      (length (selection a d)
                         - length (filter (\<lambda>p. \<not> download_ok (snd (ensure_dir dir w)) dir p)
                                     (selection a d)))
                      dir)]
            \<and> downloads evs = selection a d
            \<and> length (failure_lines evs)
                = length (filter (\<lambda>p. \<not> download_ok (snd (ensure_dir dir w)) dir p)
                            (selection a d))))"
proof (intro conjI impI)
  assume h: "stdin w = answer # rest \<and> yes_token answer"
  then have st: "stdin w = answer # rest" and yes: "yes_token answer" by simp_all
  show "fst (delete_photos a d w) = Returned ()"
    by (simp add: delete_photos_answer [OF st])
  let ?pre = "concat (map fetch_events (photos_all a))
                @ [Print (found_line (length (selection a d)))]"
  let ?post = "after_prompt a d answer"
  have "trace (snd (delete_photos a d w))
          = trace w @ ?pre @ [Input confirm_prompt (Some answer)] @ ?post"
    by (simp add: delete_photos_answer [OF st] prompt_events_def)
  moreover have "deletes ?post = selection a d"
    using yes by simp
  moreover have "length (failure_lines ?post)
                = length (filter (\<lambda>p. delete_result p \<noteq> None) (selection a d))"
    using yes by (simp add: after_prompt_def deleted_line_def)
  moreover have "last ?post
                = Print (deleted_line
                    (length (selection a d)
                       - length (filter (\<lambda>p. delete_result p \<noteq> None) (selection a d)))
                    (length (selection a d)))"
    using yes filter_count_minus [of "\<lambda>p. delete_result p = None" "selection a d"]
    by (simp add: after_prompt_def)
  ultimately show "\<exists>pre post.
            trace (snd (delete_photos a d w))
              = trace w @ pre @ [Input confirm_prompt (Some answer)] @ post
            \<and> deletes post = selection a d
            \<and> length (failure_lines post)
                = length (filter (\<lambda>p. delete_result p \<noteq> None) (selection a d))
            \<and> last post
                = Print (deleted_line
                    (length (selection a d)
                       - length (filter (\<lambda>p. delete_result p \<noteq> None) (selection a d)))
                    (length (selection a d)))"
    by blast
next
  assume ok: "fst (ensure_dir dir w) = Returned ()"
  show "fst (download_photos a d dir w) = Returned ()"
    by (simp add: download_photos_returned [OF ok])
  let ?ok = "download_ok (snd (ensure_dir dir w)) dir"
  obtain evs where evs: "trace (snd (download_photos a d dir w))
                 = trace w @ evs
                     @ [Print (downloaded_line (length (filter ?ok (selection a d))) dir)]"
      "downloads evs = selection a d"
      "length (failure_lines evs) = length (filter (\<lambda>p. \<not> ?ok p) (selection a d))"
    using download_photos_events [OF ok, of a d] by blast
  show "\<exists>evs.
            trace (snd (download_photos a d dir w))
              = trace w @ evs
                  @ [Print (downloaded_line
                      (length (selection a d)
                         - length (filter (\<lambda>p. \<not> ?ok p) (selection a d)))
                      dir)]
            \<and> downloads evs = selection a d
            \<and> length (failure_lines evs)
                = length (filter (\<lambda>p. \<not> ?ok p) (selection a d))"
    using evs filter_count_minus [of ?ok "selection a d"]
    by (intro exI [of _ evs]) simp
qed

theorem C7_partial_failure_witness:
  "stdin (sample_world [''yes'']) = ''yes'' # []
   \<and> yes_token ''yes''
   \<and> fst (ensure_dir ''downloads'' (sample_world [''yes''])) = Returned ()
   \<and> selection (sample_api [photo_a, photo_b, photo_c]) sample_cutoff = [photo_a, photo_b]
   \<and> (\<exists>pre post.
         trace (snd (delete_photos (sample_api [photo_a, photo_b, photo_c]) sample_cutoff
                       (sample_world [''yes''])))
           = pre @ [Input confirm_prompt (Some ''yes'')] @ post
         \<and> deletes post = [photo_a, photo_b]
         \<and> length (failure_lines post) = 1
         \<and> last post = Print ''Deleted 1 out of 2 photos.'')
   \<and> (\<exists>evs.
         trace (snd (download_photos (sample_api [photo_a, photo_b, photo_c]) sample_cutoff
                       ''downloads'' (sample_world [''yes''])))
           = evs @ [Print (''Downloaded 1 photos to '' @ [CHR 0x27] @ ''downloads''
                             @ [CHR 0x27] @ ''.'')]
         \<and> downloads evs = [photo_a, photo_b]
         \<and> length (failure_lines evs) = 1)"
proof -
  have st: "stdin (sample_world [''yes'']) = ''yes'' # []"
    by (simp add: sample_world_def)
  have sel: "selection (sample_api [photo_a, photo_b, photo_c]) sample_cutoff
               = [photo_a, photo_b]"
    by (simp add: selection_def matches_def sample_defs sample_cutoff_def)
  have t: "trace (sample_world [''yes'']) = []"
    by (simp add: sample_world_def)
  have f1: "delete_result photo_a = None" "delete_result photo_b = Some ''refused''"
    by (simp_all add: sample_defs)
  have f2: "download_ok (snd (ensure_dir ''downloads'' (sample_world [''yes''])))
              ''downloads'' photo_a"
      "\<not> download_ok (snd (ensure_dir ''downloads'' (sample_world [''yes''])))
              ''downloads'' photo_b"
    by (simp_all add: download_ok_def os_path_join_def sample_defs ensure_dir_def
          os_path_exists_def emit_def Let_def)
  have l1: "deleted_line (Suc 0) (Suc (Suc 0)) = ''Deleted 1 out of 2 photos.''"
    by (simp add: deleted_line_def str_nat.simps digit_def)
  have l2: "downloaded_line (Suc 0) ''downloads''
              = ''Downloaded 1 photos to '' @ [CHR 0x27] @ ''downloads'' @ [CHR 0x27] @ ''.''"
    by (simp add: downloaded_line_def str_nat.simps digit_def)
  show ?thesis
    using C7_partial_failure [of "sample_world [''yes'']" "''yes''" "[]"
        "sample_api [photo_a, photo_b, photo_c]" sample_cutoff "''downloads''"]
      st yes_token_yes ensure_dir_sample [of "[''yes'']"]
    by (simp add: sel t f1 f2 l1 l2)
qed

text \<open>
  C8.  As stated the claim fails: \<open>download_photos\<close> returns nothing, and its summary
  line gives only the number of downloads that succeeded.  A run with no photo at all
  attempts no download, a run with one matching photo whose download fails attempts one;
  both return the same value and end with the same line, and no line of the second run
  gives the number of attempts.
\<close>

theorem C8_counterexample:
  "download_photos (sample_api []) sample_cutoff ''downloads'' (sample_world [])
     = (Returned (),
        (sample_world [])
          \<lparr>trace := [Makedirs ''downloads'',
                     Print (''Downloaded 0 photos to '' @ [CHR 0x27] @ ''downloads''
                              @ [CHR 0x27] @ ''.'')],
           dirs := {''downloads''}\<rparr>)
   \<and> download_photos (sample_api [photo_b]) sample_cutoff ''downloads'' (sample_world [])
     = (Returned (),
        (sample_world [])
          \<lparr>trace := [Makedirs ''downloads'', Fetch photo_b,
                     Print ''Downloading b.jpg taken on 2022-01-01 ...'',
                     DownloadCall photo_b,
                     Print ''Failed to download b.jpg: timed out'',
                     Print (''Downloaded 0 photos to '' @ [CHR 0x27] @ ''downloads''
                              @ [CHR 0x27] @ ''.'')],
           dirs := {''downloads''}\<rparr>)"
  by (simp add: download_photos_def ensure_dir_def os_path_exists_def download_one_def
        sample_cutoff_def sample_world_def sample_api_def photo_b_def emit_def py_print_def
        Let_def downloaded_line_def failed_download_line_def str_date_sample str_nat_0)

text \<open>
  C8, amended.  In every run in which the output directory could be ensured,
  \<open>download_photos\<close> returns no value, and the last line it prints gives the number of
  matching photos whose download succeeded, and the output directory.
\<close>

theorem C8_download_reports_succeeded:
  assumes "fst (ensure_dir dir w) = Returned ()"
  shows "fst (download_photos a d dir w) = Returned ()
         \<and> last (trace (snd (download_photos a d dir w)))
             = Print (downloaded_line
                        (length (filter (download_ok (snd (ensure_dir dir w)) dir)
                                   (selection a d))) dir)"
  by (simp add: download_photos_returned [OF assms] py_print_def emit_def)

theorem C8_download_reports_succeeded_witness:
  "fst (ensure_dir ''downloads'' (sample_world [])) = Returned ()
   \<and> fst (download_photos (sample_api [photo_a, photo_b]) sample_cutoff ''downloads''
            (sample_world []))
       = Returned ()
   \<and> last (trace (snd (download_photos (sample_api [photo_a, photo_b]) sample_cutoff
                         ''downloads'' (sample_world []))))
       = Print (''Downloaded 1 photos to '' @ [CHR 0x27] @ ''downloads'' @ [CHR 0x27] @ ''.'')"
proof -
  have sel: "selection (sample_api [photo_a, photo_b]) sample_cutoff = [photo_a, photo_b]"
    by (simp add: selection_def matches_def sample_defs sample_cutoff_def)
  have f2: "download_ok (snd (ensure_dir ''downloads'' (sample_world [])))
              ''downloads'' photo_a"
      "\<not> download_ok (snd (ensure_dir ''downloads'' (sample_world [])))
              ''downloads'' photo_b"
    by (simp_all add: download_ok_def os_path_join_def sample_defs ensure_dir_def
          os_path_exists_def emit_def Let_def)
  have l2: "downloaded_line (Suc 0) ''downloads''
              = ''Downloaded 1 photos to '' @ [CHR 0x27] @ ''downloads'' @ [CHR 0x27] @ ''.''"
    by (simp add: downloaded_line_def str_nat.simps digit_def)
  show ?thesis
    using C8_download_reports_succeeded [where dir = "''downloads''" and w = "sample_world []"
            and a = "sample_api [photo_a, photo_b]" and d = sample_cutoff]
      ensure_dir_sample [of "[]"]
    by (simp add: sel f2 l2)
qed

text \<open>
  C9.  If a run of \<open>download_photos\<close> returns, then a second run with the same cutoff
  and output directory, started in the world the first run left and facing the same
  photos with the same behaviour, returns as well, creates no directory, leaves every
  file with the content it had (so the same set of files is on disk: files of the same
  name are overwritten, none is added) and ends with the same summary line.  And when
  something already exists at the path of the output directory, ensuring it does not
  fail and leaves the world as it is.
\<close>

theorem C9_download_idempotent:
  "(download_photos a d dir w = (Returned (), w1) \<longrightarrow>
      (\<exists>w2. download_photos a d dir w1 = (Returned (), w2)
            \<and> files w2 = files w1 \<and> dirs w2 = dirs w1
            \<and> dom (files w2) = dom (files w1)
            \<and> makedirs_calls (trace w2) = makedirs_calls (trace w1)
            \<and> last (trace w2) = last (trace w1)))
   \<and> (os_path_exists w dir \<longrightarrow> ensure_dir dir w = (Returned (), w))"
proof (intro conjI impI)
  assume run1: "download_photos a d dir w = (Returned (), w1)"
  have ok: "fst (ensure_dir dir w) = Returned ()"
    using run1 by (cases "ensure_dir dir w" rule: prod.exhaust [case_names Pair])
                  (auto simp add: download_photos_def split: outcome.splits)
  let ?w0 = "snd (ensure_dir dir w)"
  let ?l1 = "snd (download_loop (photos_all a) d dir 0 ?w0)"
  let ?n = "length (filter (download_ok ?w0 dir) (selection a d))"
  have w1: "w1 = py_print (downloaded_line ?n dir) ?l1"
    using run1 by (simp add: download_photos_returned [OF ok])
  have fr1: "dirs w1 = dirs ?w0" "blocked w1 = blocked ?w0" "files w1 = files ?l1"
    by (simp_all add: w1 py_print_def emit_def download_loop_frame)
  have ex0: "os_path_exists ?w0 dir"
    by (rule ensure_dir_then_exists [OF ok])
  have ex1: "os_path_exists w1 dir"
    using ex0 download_loop_files_grow [of ?w0 dir "photos_all a" d dir 0]
    by (auto simp add: os_path_exists_def fr1)
  have e2: "ensure_dir dir w1 = (Returned (), w1)"
    by (rule ensure_dir_exists [OF ex1])
  let ?l2 = "snd (download_loop (photos_all a) d dir 0 w1)"
  have okeq: "download_ok w1 dir = download_ok ?w0 dir"
    by (rule ext) (rule download_ok_cong; simp add: fr1)
  have run2: "download_photos a d dir w1 = (Returned (), py_print (downloaded_line ?n dir) ?l2)"
    using download_photos_returned [of dir w1 a d] by (simp add: e2 okeq)
  have files2: "files ?l2 = files ?l1"
    by (rule download_loop_again [OF refl]) (simp_all add: fr1 download_loop_frame)
  define w2 where "w2 = py_print (downloaded_line ?n dir) ?l2"
  have f: "files w2 = files w1"
    by (simp add: w2_def py_print_def emit_def files2 fr1)
  have dr: "dirs w2 = dirs w1"
    by (simp add: w2_def py_print_def emit_def download_loop_frame)
  have mk: "makedirs_calls (trace w2) = makedirs_calls (trace w1)"
    by (simp add: w2_def py_print_def emit_def download_loop_makedirs)
  have la: "last (trace w2) = last (trace w1)"
    by (simp add: w2_def py_print_def emit_def) (simp add: w1 py_print_def emit_def)
  show "\<exists>w2. download_photos a d dir w1 = (Returned (), w2)
            \<and> files w2 = files w1 \<and> dirs w2 = dirs w1
            \<and> dom (files w2) = dom (files w1)
            \<and> makedirs_calls (trace w2) = makedirs_calls (trace w1)
            \<and> last (trace w2) = last (trace w1)"
    using run2 f dr mk la unfolding w2_def [symmetric] by (intro exI [of _ w2]) simp
next
  assume "os_path_exists w dir"
  then show "ensure_dir dir w = (Returned (), w)"
    by (rule ensure_dir_exists)
qed

theorem C9_download_idempotent_witness:
  "os_path_exists ((sample_world [])\<lparr>dirs := {''downloads''}\<rparr>) ''downloads''
   \<and> ensure_dir ''downloads'' ((sample_world [])\<lparr>dirs := {''downloads''}\<rparr>)
       = (Returned (), (sample_world [])\<lparr>dirs := {''downloads''}\<rparr>)
   \<and> (\<exists>w1 w2.
         download_photos (sample_api [photo_a, photo_b, photo_c]) sample_cutoff ''downloads''
             (sample_world [])
           = (Returned (), w1)
         \<and> download_photos (sample_api [photo_a, photo_b, photo_c]) sample_cutoff ''downloads'' w1
           = (Returned (), w2)
         \<and> files w2 = files w1 \<and> dirs w2 = dirs w1
         \<and> makedirs_calls (trace w2) = makedirs_calls (trace w1)
         \<and> last (trace w2) = last (trace w1))"
proof -
  let ?a = "sample_api [photo_a, photo_b, photo_c]"
  let ?w = "(sample_world [])\<lparr>dirs := {''downloads''}\<rparr>"
  let ?w1 = "snd (download_photos ?a sample_cutoff ''downloads'' (sample_world []))"
  have ex: "os_path_exists ?w ''downloads''"
    by (simp add: os_path_exists_def sample_world_def)
  have r: "download_photos ?a sample_cutoff ''downloads'' (sample_world []) = (Returned (), ?w1)"
    by (simp add: download_photos_returned [OF ensure_dir_sample])
  from C9_download_idempotent [of ?a sample_cutoff "''downloads''" "sample_world []" ?w1] r
  obtain w2 where "download_photos ?a sample_cutoff ''downloads'' ?w1 = (Returned (), w2)"
      "files w2 = files ?w1" "dirs w2 = dirs ?w1"
      "makedirs_calls (trace w2) = makedirs_calls (trace ?w1)"
      "last (trace w2) = last (trace ?w1)"
    by blast
  with r have "\<exists>w1 w2.
         download_photos ?a sample_cutoff ''downloads'' (sample_world []) = (Returned (), w1)
         \<and> download_photos ?a sample_cutoff ''downloads'' w1 = (Returned (), w2)
         \<and> files w2 = files w1 \<and> dirs w2 = dirs w1
         \<and> makedirs_calls (trace w2) = makedirs_calls (trace w1)
         \<and> last (trace w2) = last (trace w1)"
    by blast
  moreover have "ensure_dir ''downloads'' ?w = (Returned (), ?w)"
    using C9_download_idempotent [of ?a sample_cutoff "''downloads''" ?w ?w] ex by blast
  ultimately show ?thesis using ex by blast
qed

text \<open>
  C10.  The claim fails on a configuration that is not a mapping, or whose \<open>icloud\<close>
  entry is present but is not a mapping: an empty configuration file (\<open>yaml.safe_load\<close>
  gives \<open>None\<close>), or a file with the line \<open>icloud:\<close> and nothing under it.  Username
  and password are absent there, but \<open>login\<close> neither prints its message nor calls
  \<open>sys.exit\<close>: the lookup \<open>.get\<close> raises \<open>AttributeError\<close>, which nothing catches.
  The session constructor is not called on this path either.
\<close>

theorem C10_login_attribute_error:
  "credential_missing YNull ''username''
   \<and> login ev YNull w = (Raised ''AttributeError'', w)
   \<and> credential_missing (YMap [(YStr ''icloud'', YNull)]) ''username''
   \<and> login ev (YMap [(YStr ''icloud'', YNull)]) w = (Raised ''AttributeError'', w)"
  by (simp add: login_def credential_missing_def credential_def)

theorem C10_login_attribute_error_witness:
  "login sample_env YNull (sample_world []) = (Raised ''AttributeError'', sample_world [])
   \<and> login sample_env (YMap [(YStr ''icloud'', YNull)]) (sample_world [])
       = (Raised ''AttributeError'', sample_world [])"
  using C10_login_attribute_error [of sample_env "sample_world []"] by simp

end
